theory Spec2Isabelle
  imports Complex_Main "HOL-Library.Sublist" "HOL-Library.Word"
begin

section \<open>JotiCalc: the line store and the evaluation driver of src/App.vue\<close>

text \<open>
  The component keeps an ordered list of lines and one table of variable bindings, and
  hands every expression to an external expression engine (mathjs). The engine is not
  part of the repository: it is a parameter of the model, together with the state it
  keeps between calls.
\<close>

subsection \<open>Strings of the host language\<close>

text \<open>
  A string is a list of UTF-16 code units. \<open>str\<close> turns a literal of ASCII characters
  into such a list.
\<close>

type_synonym jsstring = "16 word list"

definition str :: "string \<Rightarrow> jsstring" where
  "str s = map of_char s"

text \<open>
  \<^verbatim>\<open>String.prototype.trim\<close>: white space and line terminators are removed at both
  ends. These are the code units 9 to 13, the space, the no-break space, U+1680,
  U+2000 to U+200A, U+2028, U+2029, U+202F, U+205F, U+3000 and U+FEFF.
\<close>

definition isWhiteSpace :: "16 word \<Rightarrow> bool" where
  "isWhiteSpace c =
     (c \<in> set [0x09, 0x0A, 0x0B, 0x0C, 0x0D, 0x20, 0xA0, 0x1680, 0x2028, 0x2029, 0x202F,
                0x205F, 0x3000, 0xFEFF] \<or>
      (0x2000 \<le> c \<and> c \<le> 0x200A))"

definition trim :: "jsstring \<Rightarrow> jsstring" where
  "trim s = rev (dropWhile isWhiteSpace (rev (dropWhile isWhiteSpace s)))"

text \<open>\<^verbatim>\<open>s.startsWith(p)\<close> and \<^verbatim>\<open>s.includes(sub)\<close>.\<close>

definition startsWith :: "jsstring \<Rightarrow> jsstring \<Rightarrow> bool" where
  "startsWith s p = prefix p s"

fun includesStr :: "jsstring \<Rightarrow> jsstring \<Rightarrow> bool" where
  "includesStr [] sub = (sub = [])"
| "includesStr (c # cs) sub = (prefix sub (c # cs) \<or> includesStr cs sub)"

text \<open>
  \<^verbatim>\<open>s.split(sep)\<close>: the string is cut at every occurrence of the separator, scanning
  from the left; \<open>acc\<close> is the piece collected so far.
\<close>

function splitFrom :: "jsstring \<Rightarrow> jsstring \<Rightarrow> jsstring \<Rightarrow> jsstring list" where
  "splitFrom sep acc [] = [acc]"
| "splitFrom sep acc (c # cs) =
     (if sep \<noteq> [] \<and> prefix sep (c # cs)
      then acc # splitFrom sep [] (drop (length sep) (c # cs))
      else splitFrom sep (acc @ [c]) cs)"
  by pat_completeness auto
termination
  by (relation "measure (\<lambda>(sep, acc, s). length s)") (auto simp: neq_Nil_conv)

definition split :: "jsstring \<Rightarrow> jsstring \<Rightarrow> jsstring list" where
  "split s sep = (if sep = [] then map (\<lambda>c. [c]) s else splitFrom sep [] s)"





subsection \<open>Data model\<close>

text \<open>\<^verbatim>\<open>interface CalculatorLine\<close> (App.vue, lines 6 to 11).\<close>

record CalculatorLine =
  input :: jsstring
  result :: jsstring
  hasError :: bool
  errorMessage :: jsstring

text \<open>
  The expression engine as the driver calls it: \<^verbatim>\<open>math.evaluate(expr, scope)\<close>,
  \<^verbatim>\<open>math.to(value, unit)\<close> and \<^verbatim>\<open>math.format(value, {precision: 14})\<close>. The engine
  has a state of its own, of type \<open>'w\<close>: its table of units, which \<^verbatim>\<open>fetchCurrency\<close>
  extends at a time of its own, and whatever else an evaluation may consult, such as
  the source of \<^verbatim>\<open>random()\<close>. Each call reads that state and returns the new one, with
  a value or with a throw: \<open>Inl m\<close> is a throw whose \<^verbatim>\<open>err.message\<close> is \<open>m\<close> (the empty
  string when the thrown value carries no message). The driver never passes an
  expression that contains \<open>=\<close> to \<^verbatim>\<open>math.evaluate\<close>, so the engine does not write
  to the scope itself.
\<close>

record ('v, 'w) engine =
  evaluate :: "'w \<Rightarrow> jsstring \<Rightarrow> (jsstring \<rightharpoonup> 'v) \<Rightarrow> (jsstring + 'v) \<times> 'w"
  to :: "'w \<Rightarrow> 'v \<Rightarrow> jsstring \<Rightarrow> (jsstring + 'v) \<times> 'w"
  format :: "'w \<Rightarrow> 'v \<Rightarrow> (jsstring + jsstring) \<times> 'w"

text \<open>
  The component state: \<^verbatim>\<open>lines\<close> and \<^verbatim>\<open>variables\<close> (lines 19 and 20), and the state
  of the imported module \<^verbatim>\<open>math\<close>.
\<close>

record ('v, 'w) state =
  lines :: "CalculatorLine list"
  variables :: "jsstring \<rightharpoonup> 'v"
  mathState :: 'w

text \<open>Reading a field of \<^verbatim>\<open>undefined\<close> (an index outside the list) throws.\<close>

datatype js_error = TypeError

subsection \<open>Evaluating one line (lines 116 to 157)\<close>

text \<open>\<^verbatim>\<open>err.message || 'Unknown error'\<close> (line 156).\<close>

definition errorText :: "jsstring \<Rightarrow> jsstring" where
  "errorText message = (if message = [] then str ''Unknown error'' else message)"

text \<open>
  The message of the error raised when a destructured part is \<^verbatim>\<open>undefined\<close>; the
  branches that use it are not reachable, because \<^verbatim>\<open>split\<close> returns at least two
  pieces whenever \<^verbatim>\<open>includes\<close> holds.
\<close>

definition undefinedIncludes :: jsstring where
  "undefinedIncludes = str ''Cannot read properties of undefined''"

text \<open>
  \<^verbatim>\<open>variables[varName] = value\<close> (lines 137 and 142): the name gets an own property,
  except for the name \<open>__proto__\<close>, where the assignment goes to the prototype setter
  and no own property is written.
\<close>

definition assign :: "(jsstring \<rightharpoonup> 'v) \<Rightarrow> jsstring \<Rightarrow> 'v \<Rightarrow> (jsstring \<rightharpoonup> 'v)" where
  "assign vars varName v = (if varName = str ''__proto__'' then vars else vars(varName \<mapsto> v))"

text \<open>
  Line 130, \<^verbatim>\<open>const [varName, expression] = input.split('=').map(part => part.trim())\<close>,
  and line 134 likewise with the separator \<open>to\<close> between two spaces: the first two
  pieces are kept.
\<close>

definition assignmentParts :: "jsstring \<Rightarrow> (jsstring \<times> jsstring) option" where
  "assignmentParts inp =
     (case map trim (split inp (str ''='')) of
        varName # expression # _ \<Rightarrow> Some (varName, expression)
      | _ \<Rightarrow> None)"

definition conversionParts :: "jsstring \<Rightarrow> (jsstring \<times> jsstring) option" where
  "conversionParts expression =
     (case map trim (split expression (str '' to '')) of
        fromExpr # toUnit # _ \<Rightarrow> Some (fromExpr, toUnit)
      | _ \<Rightarrow> None)"

text \<open>
  The \<^verbatim>\<open>try\<close> block (lines 127 to 152) on the trimmed input, the current bindings and
  the state of the engine. It returns the text for \<^verbatim>\<open>line.result\<close> or the message of
  the error that was thrown, together with the bindings and the state of the engine
  as they are when the block is left. The binding is stored before the value is
  formatted, as in lines 137, 138 and 142, 143.
\<close>

definition tryBlock ::
  "('v, 'w) engine \<Rightarrow> 'w \<Rightarrow> jsstring \<Rightarrow> (jsstring \<rightharpoonup> 'v) \<Rightarrow>
     (jsstring + jsstring) \<times> (jsstring \<rightharpoonup> 'v) \<times> 'w" where
  "tryBlock E w inp vars =
     (if includesStr inp (str ''='') then
        (case assignmentParts inp of
           Some (varName, expression) \<Rightarrow>
             (if includesStr expression (str '' to '') then
                (case conversionParts expression of
                   Some (fromExpr, toUnit) \<Rightarrow>
                     (case evaluate E w fromExpr vars of
                        (Inl m, w1) \<Rightarrow> (Inl m, vars, w1)
                      | (Inr valueWithUnit, w1) \<Rightarrow>
                          (case to E w1 valueWithUnit toUnit of
                             (Inl m, w2) \<Rightarrow> (Inl m, vars, w2)
                           | (Inr converted, w2) \<Rightarrow>
                               (case format E w2 converted of
                                  (Inl m, w3) \<Rightarrow> (Inl m, assign vars varName converted, w3)
                                | (Inr r, w3) \<Rightarrow> (Inr r, assign vars varName converted, w3))))
                 | None \<Rightarrow> (Inl undefinedIncludes, vars, w))
              else
                (case evaluate E w expression vars of
                   (Inl m, w1) \<Rightarrow> (Inl m, vars, w1)
                 | (Inr v, w1) \<Rightarrow>
                     (case format E w1 v of
                        (Inl m, w2) \<Rightarrow> (Inl m, assign vars varName v, w2)
                      | (Inr r, w2) \<Rightarrow> (Inr r, assign vars varName v, w2))))
         | None \<Rightarrow> (Inl undefinedIncludes, vars, w))
      else
        (case evaluate E w inp vars of
           (Inl m, w1) \<Rightarrow> (Inl m, vars, w1)
         | (Inr v, w1) \<Rightarrow>
             (case format E w1 v of
                (Inl m, w2) \<Rightarrow> (Inl m, vars, w2)
              | (Inr r, w2) \<Rightarrow> (Inr r, vars, w2))))"

text \<open>The guard of line 120: the trimmed input is empty or starts with \<open>//\<close>.\<close>

definition isSkipped :: "CalculatorLine \<Rightarrow> bool" where
  "isSkipped line = (trim (input line) = [] \<or> startsWith (trim (input line)) (str ''//''))"

text \<open>Lines 121 to 123.\<close>

definition clearLine :: "CalculatorLine \<Rightarrow> CalculatorLine" where
  "clearLine line = line\<lparr>result := [], hasError := False, errorMessage := []\<rparr>"

text \<open>Lines 151, 152 after a normal end of the block, lines 154 to 156 after a throw.\<close>

definition settle :: "CalculatorLine \<Rightarrow> jsstring + jsstring \<Rightarrow> CalculatorLine" where
  "settle line outcome =
     (case outcome of
        Inr r \<Rightarrow> line\<lparr>result := r, hasError := False, errorMessage := []\<rparr>
      | Inl m \<Rightarrow> line\<lparr>result := str ''Error'', hasError := True, errorMessage := errorText m\<rparr>)"

text \<open>The \<^verbatim>\<open>try\<close>/\<^verbatim>\<open>catch\<close> statement on the line at \<open>index\<close>.\<close>

definition runTry :: "('v, 'w) engine \<Rightarrow> nat \<Rightarrow> ('v, 'w) state \<Rightarrow> ('v, 'w) state" where
  "runTry E index s =
     (let line = lines s ! index;
          (outcome, vars, w) = tryBlock E (mathState s) (trim (input line)) (variables s)
      in s\<lparr>lines := (lines s)[index := settle line outcome], variables := vars, mathState := w\<rparr>)"

subsection \<open>The driver: \<^verbatim>\<open>evaluateLine\<close> and \<^verbatim>\<open>updateAllLinesAfter\<close> (lines 116 to 168)\<close>

text \<open>
  \<open>forLoop E i s\<close> is the \<^verbatim>\<open>for\<close> statement of \<^verbatim>\<open>updateAllLinesAfter\<close> with its counter
  at \<open>i\<close>; the bound \<^verbatim>\<open>lines.value.length\<close> is read again at every round.
\<close>

function evaluateLine :: "('v, 'w) engine \<Rightarrow> nat \<Rightarrow> ('v, 'w) state \<Rightarrow> js_error + ('v, 'w) state"
  and updateAllLinesAfter :: "('v, 'w) engine \<Rightarrow> nat \<Rightarrow> ('v, 'w) state \<Rightarrow> js_error + ('v, 'w) state"
  and forLoop :: "('v, 'w) engine \<Rightarrow> nat \<Rightarrow> ('v, 'w) state \<Rightarrow> js_error + ('v, 'w) state"
where
  "evaluateLine E index s =
     (if index < length (lines s) then
        (if isSkipped (lines s ! index)
         then Inr (s\<lparr>lines := (lines s)[index := clearLine (lines s ! index)]\<rparr>)
         else updateAllLinesAfter E index (runTry E index s))
      else Inl TypeError)"
| "updateAllLinesAfter E startIndex s = forLoop E (startIndex + 1) s"
| "forLoop E i s =
     (if i < length (lines s) then
        (case evaluateLine E i s of
           Inl e \<Rightarrow> Inl e
         | Inr s' \<Rightarrow> forLoop E (i + 1) s')
      else Inr s)"
  by pat_completeness auto

lemma length_runTry: "length (lines (runTry E index s)) = length (lines s)"
  by (simp add: runTry_def Let_def split: prod.splits)

text \<open>
  The loop calls itself on the state that \<open>evaluateLine\<close> returns, so the termination
  proof needs that this state has as many lines as the one before: first shown for
  the arguments on which the functions are known to be defined.
\<close>

lemma length_partial:
  "evaluateLine_updateAllLinesAfter_forLoop_dom (Inl (E, index, s)) \<Longrightarrow>
     (\<forall>s'. evaluateLine E index s = Inr s' \<longrightarrow> length (lines s') = length (lines s))"
  "evaluateLine_updateAllLinesAfter_forLoop_dom (Inr (Inl (E, startIndex, t))) \<Longrightarrow>
     (\<forall>s'. updateAllLinesAfter E startIndex t = Inr s' \<longrightarrow> length (lines s') = length (lines t))"
  "evaluateLine_updateAllLinesAfter_forLoop_dom (Inr (Inr (E, i, u))) \<Longrightarrow>
     (\<forall>s'. forLoop E i u = Inr s' \<longrightarrow> length (lines s') = length (lines u))"
proof (induct rule: evaluateLine_updateAllLinesAfter_forLoop.pinduct)
  case (1 E index s)
  then show ?case
    by (auto simp: evaluateLine.psimps length_runTry split: if_splits)
next
  case (2 E startIndex s)
  then show ?case
    by (simp add: updateAllLinesAfter.psimps)
next
  case (3 E i s)
  show ?case
  proof (intro allI impI)
    fix s'
    assume r: "forLoop E i s = Inr s'"
    show "length (lines s') = length (lines s)"
    proof (cases "i < length (lines s)")
      case False
      with r "3.hyps"(1) show ?thesis by (simp add: forLoop.psimps)
    next
      case True
      with r "3.hyps"(1) obtain b
        where b: "evaluateLine E i s = Inr b" "forLoop E (i + 1) b = Inr s'"
        by (auto simp: forLoop.psimps split: sum.splits)
      from "3.hyps"(2)[OF True] b(1) have "length (lines b) = length (lines s)" by simp
      moreover from "3.hyps"(3)[OF True b(1)] b(2)
      have "length (lines s') = length (lines b)" by simp
      ultimately show ?thesis by simp
    qed
  qed
qed

text \<open>
  The measure: the number of lines from the index to the end of the list, which every
  call makes smaller (the factor and the offsets order the three functions at one
  index).
\<close>

definition driverMeasure ::
  "(('v, 'w) engine \<times> nat \<times> ('v, 'w) state) + (('v, 'w) engine \<times> nat \<times> ('v, 'w) state) + (('v, 'w) engine \<times> nat \<times> ('v, 'w) state) \<Rightarrow> nat" where
  "driverMeasure x =
     (case x of
        Inl (E, index, s) \<Rightarrow> 3 * (length (lines s) - index)
      | Inr (Inl (E, startIndex, s)) \<Rightarrow> 3 * (length (lines s) - (startIndex + 1)) + 2
      | Inr (Inr (E, i, s)) \<Rightarrow> 3 * (length (lines s) - i) + 1)"

lemma driver_total: "All (evaluateLine_updateAllLinesAfter_forLoop_dom :: (_ + _ + (('v, 'w) engine \<times> nat \<times> ('v, 'w) state)) \<Rightarrow> bool)"
proof (relation "measure driverMeasure", goal_cases)
  case 1
  show ?case by simp
next
  case (2 E index s)
  then show ?case by (simp add: driverMeasure_def length_runTry)
next
  case (3 E startIndex s)
  show ?case by (simp add: driverMeasure_def)
next
  case (4 E i s)
  then show ?case by (simp add: driverMeasure_def)
next
  case (5 E i s b)
  from length_partial(1)[OF 5(3)] 5(2) have "length (lines b) = length (lines s)" by simp
  with 5(1) show ?case by (simp add: driverMeasure_def)
qed

termination evaluateLine
  by (rule driver_total)

subsection \<open>What one call does, and in which order lines are evaluated\<close>

text \<open>
  One run of the body of \<open>evaluateLine\<close> on line \<open>j\<close>, without the cascade that
  follows it: the line is cleared when it is skipped, and the \<^verbatim>\<open>try\<close> statement is run
  on it otherwise.
\<close>

definition evaluateOne :: "('v, 'w) engine \<Rightarrow> ('v, 'w) state \<Rightarrow> nat \<Rightarrow> ('v, 'w) state" where
  "evaluateOne E s j =
     (if isSkipped (lines s ! j)
      then s\<lparr>lines := (lines s)[j := clearLine (lines s ! j)]\<rparr>
      else runTry E j s)"

text \<open>
  The indices whose body runs during \<open>evaluateLine i\<close>, in the order in which they run.
  \<open>skipped\<close> tells for every position whether the guard of line 120 holds there. A
  skipped line returns before the cascade; any other line is followed by the loop of
  \<open>updateAllLinesAfter\<close>, which calls \<open>evaluateLine\<close> on every later index, and each of
  these calls cascades again.
\<close>

function evalOrder :: "bool list \<Rightarrow> nat \<Rightarrow> nat list" where
  "evalOrder skipped i =
     (if i < length skipped then
        (if skipped ! i then [i]
         else i # concat (map (evalOrder skipped) [i + 1 ..< length skipped]))
      else [])"
  by pat_completeness auto
termination
  by (relation "measure (\<lambda>(skipped, i). length skipped - i)") auto

definition loopOrder :: "bool list \<Rightarrow> nat \<Rightarrow> nat list" where
  "loopOrder skipped k = concat (map (evalOrder skipped) [k ..< length skipped])"

definition skippedFlags :: "('v, 'w) state \<Rightarrow> bool list" where
  "skippedFlags s = map isSkipped (lines s)"

subsection \<open>Start-up: every line is evaluated, top to bottom (lines 263 to 265)\<close>


text \<open>The object that line 255 builds for one seed expression.\<close>

definition mkLine :: "jsstring \<Rightarrow> CalculatorLine" where
  "mkLine text = \<lparr>input = text, result = [], hasError = False, errorMessage = []\<rparr>"




subsection \<open>Line store operations (lines 171 to 214)\<close>

definition newLine :: CalculatorLine where
  "newLine = \<lparr>input = [], result = [], hasError = False, errorMessage = []\<rparr>"

text \<open>
  \<^verbatim>\<open>addLine(index?)\<close>: \<^verbatim>\<open>splice(index, 0, newLine)\<close> when the argument is a number (an
  index beyond the end appends), \<^verbatim>\<open>push(newLine)\<close> otherwise. Moving the focus is
  not modelled.
\<close>

definition addLine :: "nat option \<Rightarrow> ('v, 'w) state \<Rightarrow> ('v, 'w) state" where
  "addLine index s =
     (case index of
        Some i \<Rightarrow> s\<lparr>lines := take i (lines s) @ [newLine] @ drop i (lines s)\<rparr>
      | None \<Rightarrow> s\<lparr>lines := lines s @ [newLine]\<rparr>)"

text \<open>
  \<^verbatim>\<open>handleBackspace(event, index)\<close>: \<^verbatim>\<open>splice(index, 1)\<close> when the line is empty and
  is not the only one. Nothing is evaluated and \<^verbatim>\<open>variables\<close> is not touched.
\<close>

definition handleBackspace :: "nat \<Rightarrow> ('v, 'w) state \<Rightarrow> js_error + ('v, 'w) state" where
  "handleBackspace index s =
     (if index < length (lines s) then
        (if input (lines s ! index) = [] \<and> length (lines s) > 1
         then Inr (s\<lparr>lines := take index (lines s) @ drop (index + 1) (lines s)\<rparr>)
         else Inr s)
      else Inl TypeError)"

text \<open>
  What the user interface can do to the state (template, lines 475 to 480): typing into
  row \<open>i\<close> writes the text (\<^verbatim>\<open>v-model\<close>) and calls \<open>evaluateLine i\<close>; Enter in row \<open>i\<close>
  calls \<open>addLine (i + 1)\<close>; the button calls \<open>addLine\<close> without an index; Backspace in
  row \<open>i\<close> calls \<open>handleBackspace i\<close>.
\<close>

datatype operation = TypeText nat jsstring | PressEnter nat | ClickAddLine | PressBackspace nat

definition setInput :: "nat \<Rightarrow> jsstring \<Rightarrow> ('v, 'w) state \<Rightarrow> ('v, 'w) state" where
  "setInput i text s = s\<lparr>lines := (lines s)[i := (lines s ! i)\<lparr>input := text\<rparr>]\<rparr>"

fun perform :: "('v, 'w) engine \<Rightarrow> operation \<Rightarrow> ('v, 'w) state \<Rightarrow> js_error + ('v, 'w) state" where
  "perform E (TypeText i text) s =
     (if i < length (lines s) then evaluateLine E i (setInput i text s) else Inl TypeError)"
| "perform E (PressEnter i) s = Inr (addLine (Some (i + 1)) s)"
| "perform E ClickAddLine s = Inr (addLine None s)"
| "perform E (PressBackspace i) s = handleBackspace i s"

fun performAll :: "('v, 'w) engine \<Rightarrow> operation list \<Rightarrow> ('v, 'w) state \<Rightarrow> js_error + ('v, 'w) state" where
  "performAll E [] s = Inr s"
| "performAll E (op # ops) s =
     (case perform E op s of Inl e \<Rightarrow> Inl e | Inr s' \<Rightarrow> performAll E ops s')"

subsection \<open>Registering currency units (lines 89 to 109)\<close>

text \<open>
  A value of the fetched mapping: a finite number, one of the three numbers that are
  not finite, or a value whose \<^verbatim>\<open>typeof\<close> is not \<^verbatim>\<open>'number'\<close>.
\<close>

datatype jsvalue = JNumber real | JNaN | JInfinity | JNegInfinity | JNotNumber







subsection \<open>The behaviour as the specification words it\<close>

text \<open>
  The single pass that evaluates line \<open>i\<close> and then every later line once, in
  increasing order: what a cascade without repetition would do.
\<close>

definition singlePass :: "('v, 'w) engine \<Rightarrow> nat \<Rightarrow> ('v, 'w) state \<Rightarrow> ('v, 'w) state" where
  "singlePass E i s = foldl (evaluateOne E) s [i ..< length (lines s)]"


text \<open>
  The removal as the specification words it: the line is deleted and the lines after
  the deleted index are evaluated again.
\<close>

definition removeLine_spec :: "('v, 'w) engine \<Rightarrow> nat \<Rightarrow> ('v, 'w) state \<Rightarrow> js_error + ('v, 'w) state" where
  "removeLine_spec E index s =
     (if index < length (lines s) then
        (if input (lines s ! index) = [] \<and> length (lines s) > 1
         then forLoop E index (s\<lparr>lines := take index (lines s) @ drop (index + 1) (lines s)\<rparr>)
         else Inr s)
      else Inl TypeError)"

text \<open>
  The split as the specification words it: the input is cut once, at the first \<open>=\<close>,
  and the expression is all that follows.
\<close>

definition equalsSign :: "16 word" where
  "equalsSign = 0x3D"

definition splitOnce_spec :: "jsstring \<Rightarrow> jsstring \<times> jsstring" where
  "splitOnce_spec s =
     (trim (takeWhile (\<lambda>c. c \<noteq> equalsSign) s),
      trim (drop 1 (dropWhile (\<lambda>c. c \<noteq> equalsSign) s)))"


subsection \<open>The calls that one line makes to the engine\<close>

text \<open>
  What the \<^verbatim>\<open>try\<close> block takes from the trimmed input: the name to bind, if there is
  one, the text handed to \<^verbatim>\<open>math.evaluate\<close>, and the unit handed to \<^verbatim>\<open>math.to\<close>, if
  there is one.
\<close>

definition lineParts :: "jsstring \<Rightarrow> (jsstring option \<times> jsstring \<times> jsstring option) option" where
  "lineParts inp =
     (if includesStr inp (str ''='') then
        (case assignmentParts inp of
           Some (varName, expression) \<Rightarrow>
             (if includesStr expression (str '' to '') then
                (case conversionParts expression of
                   Some (fromExpr, toUnit) \<Rightarrow> Some (Some varName, fromExpr, Some toUnit)
                 | None \<Rightarrow> None)
              else Some (Some varName, expression, None))
         | None \<Rightarrow> None)
      else Some (None, inp, None))"

text \<open>
  The step of a line at which the engine throws, if it throws, and the message: the
  text is evaluated, the value is converted when there is a unit, and the value that
  results is formatted; the first call that throws ends the block.
\<close>

datatype step = Evaluation | Conversion | Formatting

definition raised ::
  "('v, 'w) engine \<Rightarrow> 'w \<Rightarrow> jsstring \<Rightarrow> (jsstring \<rightharpoonup> 'v) \<Rightarrow> (step \<times> jsstring) option" where
  "raised E w inp vars =
     (case lineParts inp of
        None \<Rightarrow> None
      | Some (target, expr, unit) \<Rightarrow>
          (case evaluate E w expr vars of
             (Inl m, w1) \<Rightarrow> Some (Evaluation, m)
           | (Inr v, w1) \<Rightarrow>
               (case unit of
                  None \<Rightarrow>
                    (case format E w1 v of
                       (Inl m, w2) \<Rightarrow> Some (Formatting, m)
                     | (Inr r, w2) \<Rightarrow> None)
                | Some u \<Rightarrow>
                    (case to E w1 v u of
                       (Inl m, w2) \<Rightarrow> Some (Conversion, m)
                     | (Inr c, w2) \<Rightarrow>
                         (case format E w2 c of
                            (Inl m, w3) \<Rightarrow> Some (Formatting, m)
                          | (Inr r, w3) \<Rightarrow> None)))))"

text \<open>
  The value that a line has for its name once evaluation and conversion are through:
  the value that lines 137 and 142 store.
\<close>

definition computed ::
  "('v, 'w) engine \<Rightarrow> 'w \<Rightarrow> jsstring \<Rightarrow> (jsstring \<rightharpoonup> 'v) \<Rightarrow> (jsstring \<times> 'v) option" where
  "computed E w inp vars =
     (case lineParts inp of
        Some (Some varName, expr, unit) \<Rightarrow>
          (case evaluate E w expr vars of
             (Inl m, w1) \<Rightarrow> None
           | (Inr v, w1) \<Rightarrow>
               (case unit of
                  None \<Rightarrow> Some (varName, v)
                | Some u \<Rightarrow>
                    (case to E w1 v u of
                       (Inl m, w2) \<Rightarrow> None
                     | (Inr c, w2) \<Rightarrow> Some (varName, c))))
      | _ \<Rightarrow> None)"



subsection \<open>One pass over the lines, each line once, for comparison\<close>

text \<open>
  The block in terms of the parts of the input: the calls are made in the order
  evaluate, convert, store, format.
\<close>

definition blockSteps ::
  "('v, 'w) engine \<Rightarrow> 'w \<Rightarrow> jsstring option \<Rightarrow> jsstring \<Rightarrow> jsstring option \<Rightarrow>
     (jsstring \<rightharpoonup> 'v) \<Rightarrow> (jsstring + jsstring) \<times> (jsstring \<rightharpoonup> 'v) \<times> 'w" where
  "blockSteps E w target expr unit vars =
     (case evaluate E w expr vars of
        (Inl m, w1) \<Rightarrow> (Inl m, vars, w1)
      | (Inr v, w1) \<Rightarrow>
          (case (case unit of None \<Rightarrow> (Inr v, w1) | Some u \<Rightarrow> to E w1 v u) of
             (Inl m, w2) \<Rightarrow> (Inl m, vars, w2)
           | (Inr c, w2) \<Rightarrow>
               (case format E w2 c of
                  (Inl m, w3) \<Rightarrow>
                    (Inl m, (case target of None \<Rightarrow> vars | Some n \<Rightarrow> assign vars n c), w3)
                | (Inr r, w3) \<Rightarrow>
                    (Inr r, (case target of None \<Rightarrow> vars | Some n \<Rightarrow> assign vars n c), w3))))"









subsection \<open>Engines for running the driver on concrete inputs\<close>

text \<open>
  A small engine: values are texts, a decimal numeral evaluates to itself, a name
  evaluates to its binding and is an error when it has none, the only unit is
  \<open>one\<close>, and formatting returns the text. It leaves its state as it is.
\<close>

definition isDigit :: "16 word \<Rightarrow> bool" where
  "isDigit c = (c \<in> set (str ''0123456789''))"

definition stubEvaluate :: "jsstring \<Rightarrow> (jsstring \<rightharpoonup> jsstring) \<Rightarrow> jsstring + jsstring" where
  "stubEvaluate expr vars =
     (if expr \<noteq> [] \<and> list_all isDigit expr then Inr expr
      else (case vars expr of
              Some v \<Rightarrow> Inr v
            | None \<Rightarrow> Inl (str ''Undefined symbol '' @ expr)))"

definition stubTo :: "jsstring \<Rightarrow> jsstring \<Rightarrow> jsstring + jsstring" where
  "stubTo v unit =
     (if unit = str ''one'' then Inr v else Inl (str ''Unit '' @ unit @ str '' not found''))"

definition stubEngine :: "(jsstring, 'w) engine" where
  "stubEngine =
     \<lparr>evaluate = (\<lambda>w expr vars. (stubEvaluate expr vars, w)),
      to = (\<lambda>w v unit. (stubTo v unit, w)),
      format = (\<lambda>w v. (Inr v, w))\<rparr>"

text \<open>The same engine with a formatter that always throws.\<close>

definition noFormatEngine :: "(jsstring, 'w) engine" where
  "noFormatEngine =
     \<lparr>evaluate = (\<lambda>w expr vars. (stubEvaluate expr vars, w)),
      to = (\<lambda>w v unit. (stubTo v unit, w)),
      format = (\<lambda>w v. (Inl (str ''Cannot format''), w))\<rparr>"

text \<open>The same engine with an evaluation that throws an error without a message.\<close>

definition silentEngine :: "(jsstring, 'w) engine" where
  "silentEngine =
     \<lparr>evaluate = (\<lambda>w expr vars. (Inl [], w)),
      to = (\<lambda>w v unit. (stubTo v unit, w)),
      format = (\<lambda>w v. (Inr v, w))\<rparr>"









text \<open>What the rows show: the result text and the error flag of every line.\<close>

definition shown :: "js_error + ('v, 'w) state \<Rightarrow> (jsstring \<times> bool) list" where
  "shown r = (case r of Inl e \<Rightarrow> [] | Inr s \<Rightarrow> map (\<lambda>l. (result l, hasError l)) (lines s))"

text \<open>Rows that have not been evaluated yet, with no binding.\<close>

definition mkState :: "'w \<Rightarrow> string list \<Rightarrow> (jsstring, 'w) state" where
  "mkState w texts =
     \<lparr>lines = map (\<lambda>t. mkLine (str t)) texts, variables = Map.empty, mathState = w\<rparr>"

text \<open>
  A state that the user interface reaches from three blank rows by typing \<open>y\<close> into
  the second row and then \<open>y = 1\<close> into the third: the second row keeps the error
  of its last evaluation.
\<close>

definition staleState :: "(jsstring, unit) state" where
  "staleState =
     \<lparr>lines = [\<lparr>input = [], result = [], hasError = False, errorMessage = []\<rparr>,
               \<lparr>input = str ''y'', result = str ''Error'', hasError = True,
                errorMessage = str ''Undefined symbol y''\<rparr>,
               \<lparr>input = str ''y = 1'', result = str ''1'', hasError = False, errorMessage = []\<rparr>],
      variables = [str ''y'' \<mapsto> str ''1''],
      mathState = ()\<rparr>"


section \<open>Properties of the driver\<close>

subsection \<open>One evaluation changes one line and keeps every input\<close>

declare evalOrder.simps [simp del]
declare evaluateLine.simps [simp del] updateAllLinesAfter.simps [simp del] forLoop.simps [simp del]

lemma input_settle: "input (settle l outcome) = input l"
  by (simp add: settle_def split: sum.splits)

lemma input_clearLine: "input (clearLine l) = input l"
  by (simp add: clearLine_def)

lemma isSkipped_settle: "isSkipped (settle l outcome) = isSkipped l"
  by (simp add: isSkipped_def input_settle)

lemma isSkipped_clearLine: "isSkipped (clearLine l) = isSkipped l"
  by (simp add: isSkipped_def input_clearLine)

lemma map_update_same: "f y = f (xs ! j) \<Longrightarrow> map f (xs[j := y]) = map f xs"
proof (rule nth_equalityI)
  show "length (map f (xs[j := y])) = length (map f xs)" by simp
next
  fix i assume "i < length (map f (xs[j := y]))"
  then have "i < length xs" by simp
  moreover assume "f y = f (xs ! j)"
  ultimately show "map f (xs[j := y]) ! i = map f xs ! i"
    by (cases "i = j") simp_all
qed

lemma lines_runTry:
  "lines (runTry E j s) =
     (lines s)[j := settle (lines s ! j)
        (fst (tryBlock E (mathState s) (trim (input (lines s ! j))) (variables s)))]"
  by (simp add: runTry_def Let_def split: prod.splits)

lemma variables_runTry:
  "variables (runTry E j s) =
     fst (snd (tryBlock E (mathState s) (trim (input (lines s ! j))) (variables s)))"
  by (simp add: runTry_def Let_def split: prod.splits)

lemma lines_evaluateOne:
  "lines (evaluateOne E s j) =
     (lines s)[j := (if isSkipped (lines s ! j) then clearLine (lines s ! j)
                     else settle (lines s ! j) (fst (tryBlock E (mathState s) (trim (input (lines s ! j))) (variables s))))]"
  by (simp add: evaluateOne_def lines_runTry)

lemma length_evaluateOne: "length (lines (evaluateOne E s j)) = length (lines s)"
  by (simp add: lines_evaluateOne)


lemma flags_evaluateOne: "skippedFlags (evaluateOne E s j) = skippedFlags s"
  unfolding skippedFlags_def lines_evaluateOne
  by (rule map_update_same) (simp add: isSkipped_settle isSkipped_clearLine)

lemma other_evaluateOne: "k \<noteq> j \<Longrightarrow> lines (evaluateOne E s j) ! k = lines s ! k"
  by (simp add: lines_evaluateOne)

lemma length_foldl: "length (lines (foldl (evaluateOne E) s tr)) = length (lines s)"
  by (induction tr arbitrary: s) (simp_all add: length_evaluateOne)


lemma flags_foldl: "skippedFlags (foldl (evaluateOne E) s tr) = skippedFlags s"
  by (induction tr arbitrary: s) (simp_all add: flags_evaluateOne)

lemma other_foldl: "k \<notin> set tr \<Longrightarrow> lines (foldl (evaluateOne E) s tr) ! k = lines s ! k"
  by (induction tr arbitrary: s) (auto simp: other_evaluateOne)

subsection \<open>The order of evaluation\<close>

lemma length_flags: "length (skippedFlags s) = length (lines s)"
  by (simp add: skippedFlags_def)

lemma evalOrder_skipped: "i < length fl \<Longrightarrow> fl ! i \<Longrightarrow> evalOrder fl i = [i]"
  by (simp add: evalOrder.simps)

lemma evalOrder_cascade:
  "i < length fl \<Longrightarrow> \<not> fl ! i \<Longrightarrow> evalOrder fl i = i # loopOrder fl (i + 1)"
  by (subst evalOrder.simps) (simp add: loopOrder_def)

lemma evalOrder_beyond: "\<not> i < length fl \<Longrightarrow> evalOrder fl i = []"
  by (simp add: evalOrder.simps)

lemma loopOrder_step:
  "k < length fl \<Longrightarrow> loopOrder fl k = evalOrder fl k @ loopOrder fl (k + 1)"
  by (simp add: loopOrder_def upt_conv_Cons)

lemma loopOrder_beyond: "\<not> k < length fl \<Longrightarrow> loopOrder fl k = []"
  by (simp add: loopOrder_def)

text \<open>
  The driver returns normally on every index inside the list, and its effect is that of
  running the body on the indices of \<open>evalOrder\<close>, one after the other.
\<close>

lemma driver_as_fold:
  "index < length (lines s) \<longrightarrow>
     evaluateLine E index s = Inr (foldl (evaluateOne E) s (evalOrder (skippedFlags s) index))"
  "updateAllLinesAfter E startIndex t =
     Inr (foldl (evaluateOne E) t (loopOrder (skippedFlags t) (startIndex + 1)))"
  "forLoop E i u = Inr (foldl (evaluateOne E) u (loopOrder (skippedFlags u) i))"
proof (induct E index s and E startIndex t and E i u
       rule: evaluateLine_updateAllLinesAfter_forLoop.induct)
  case (1 E index s)
  show ?case
  proof
    assume lt: "index < length (lines s)"
    show "evaluateLine E index s = Inr (foldl (evaluateOne E) s (evalOrder (skippedFlags s) index))"
    proof (cases "isSkipped (lines s ! index)")
      case True
      with lt have "evalOrder (skippedFlags s) index = [index]"
        by (simp add: evalOrder_skipped skippedFlags_def)
      with lt True show ?thesis
        by (simp add: evaluateLine.simps evaluateOne_def)
    next
      case False
      with lt have o: "evalOrder (skippedFlags s) index = index # loopOrder (skippedFlags s) (index + 1)"
        by (simp add: evalOrder_cascade skippedFlags_def)
      have f: "skippedFlags (runTry E index s) = skippedFlags s"
        using flags_evaluateOne[of E s index] False by (simp add: evaluateOne_def)
      from lt False have "evaluateLine E index s = updateAllLinesAfter E index (runTry E index s)"
        by (simp add: evaluateLine.simps)
      also have "\<dots> = Inr (foldl (evaluateOne E) (runTry E index s) (loopOrder (skippedFlags s) (index + 1)))"
        using "1.hyps"[OF lt False] f by simp
      finally show ?thesis using o False by (simp add: evaluateOne_def)
    qed
  qed
next
  case (2 E startIndex s)
  then show ?case by (simp add: updateAllLinesAfter.simps)
next
  case (3 E i s)
  show ?case
  proof (cases "i < length (lines s)")
    case False
    then show ?thesis by (simp add: forLoop.simps loopOrder_beyond length_flags)
  next
    case True
    let ?b = "foldl (evaluateOne E) s (evalOrder (skippedFlags s) i)"
    from "3.hyps"(1)[OF True] True have b: "evaluateLine E i s = Inr ?b" by simp
    from "3.hyps"(2)[OF True b]
    have "forLoop E (i + 1) ?b = Inr (foldl (evaluateOne E) ?b (loopOrder (skippedFlags s) (i + 1)))"
      by (simp add: flags_foldl)
    with True b show ?thesis
      by (simp add: forLoop.simps[of E i s] loopOrder_step length_flags)
  qed
qed

lemma evalOrder_range: "set (evalOrder fl i) \<subseteq> {i ..< length fl}"
proof (induct fl i rule: evalOrder.induct)
  case (1 skipped i)
  show ?case
  proof (cases "i < length skipped")
    case False
    then show ?thesis by (simp add: evalOrder_beyond)
  next
    case True
    show ?thesis
    proof (cases "skipped ! i")
      case True
      with \<open>i < length skipped\<close> show ?thesis by (simp add: evalOrder_skipped)
    next
      case False
      have sub: "set (evalOrder skipped j) \<subseteq> {i ..< length skipped}" if "j \<in> set [i + 1 ..< length skipped]" for j
        using "1.hyps"[OF True False that] that by auto
      have "set (loopOrder skipped (i + 1)) \<subseteq> {i ..< length skipped}"
      proof
        fix x assume "x \<in> set (loopOrder skipped (i + 1))"
        then obtain j where "j \<in> set [i + 1 ..< length skipped]" "x \<in> set (evalOrder skipped j)"
          by (auto simp: loopOrder_def)
        with sub show "x \<in> {i ..< length skipped}" by blast
      qed
      with True False show ?thesis
        by (simp add: evalOrder_cascade)
    qed
  qed
qed

lemma evalOrder_hd: "i < length fl \<Longrightarrow> \<exists>rest. evalOrder fl i = i # rest"
  by (cases "fl ! i") (simp_all add: evalOrder_skipped evalOrder_cascade)

lemma set_loopOrder: "set (loopOrder fl k) = {k ..< length fl}"
proof
  show "set (loopOrder fl k) \<subseteq> {k ..< length fl}"
    using evalOrder_range[of fl] by (fastforce simp: loopOrder_def)
  show "{k ..< length fl} \<subseteq> set (loopOrder fl k)"
  proof
    fix j assume "j \<in> {k ..< length fl}"
    then have "j \<in> set [k ..< length fl]" "j \<in> set (evalOrder fl j)"
      using evalOrder_hd[of j fl] by auto
    then show "j \<in> set (loopOrder fl k)" by (auto simp: loopOrder_def)
  qed
qed

lemma geometric_bound:
  fixes g :: "nat \<Rightarrow> nat"
  assumes "\<And>j. a \<le> j \<Longrightarrow> j < n \<Longrightarrow> g j \<le> 2 ^ (n - Suc j)"
  shows "sum_list (map g [a ..< n]) + 1 \<le> 2 ^ (n - a)"
  using assms
proof (induction "n - a" arbitrary: a)
  case 0
  then show ?case by simp
next
  case (Suc d)
  then have lt: "a < n" by simp
  have "d = n - Suc a" using Suc.hyps(2) by simp
  moreover have "g j \<le> 2 ^ (n - Suc j)" if "Suc a \<le> j" "j < n" for j
    using that Suc.prems[of j] by simp
  ultimately have r: "sum_list (map g [Suc a ..< n]) + 1 \<le> 2 ^ (n - Suc a)"
    by (rule Suc.hyps(1))
  have h: "g a \<le> 2 ^ (n - Suc a)" using Suc.prems[of a] lt by simp
  have "n - a = Suc (n - Suc a)" using lt by simp
  then have p: "(2::nat) ^ (n - a) = 2 * 2 ^ (n - Suc a)"
    by (simp only: power_Suc)
  from lt have "sum_list (map g [a ..< n]) = g a + sum_list (map g [Suc a ..< n])"
    by (simp add: upt_conv_Cons)
  with r h p show ?case by simp
qed

text \<open>The body runs at most \<open>2 ^ (n - 1 - i)\<close> times during \<open>evaluateLine i\<close> on \<open>n\<close> lines.\<close>

lemma length_evalOrder: "i < length fl \<Longrightarrow> length (evalOrder fl i) \<le> 2 ^ (length fl - Suc i)"
proof (induct fl i rule: evalOrder.induct)
  case (1 skipped i)
  show ?case
  proof (cases "skipped ! i")
    case True
    with "1.prems" show ?thesis by (simp add: evalOrder_skipped)
  next
    case False
    have ih: "length (evalOrder skipped j) \<le> 2 ^ (length skipped - Suc j)"
      if "Suc i \<le> j" "j < length skipped" for j
      using "1.hyps"[OF "1.prems" False, of j] that by simp
    have "length (loopOrder skipped (i + 1))
        = sum_list (map (\<lambda>j. length (evalOrder skipped j)) [Suc i ..< length skipped])"
      by (simp add: loopOrder_def length_concat comp_def)
    moreover have "sum_list (map (\<lambda>j. length (evalOrder skipped j)) [Suc i ..< length skipped]) + 1
        \<le> 2 ^ (length skipped - Suc i)"
      using ih by (rule geometric_bound)
    ultimately show ?thesis
      using "1.prems" False by (simp add: evalOrder_cascade)
  qed
qed

lemma evaluateLine_returns:
  "index < length (lines s) \<Longrightarrow>
     evaluateLine E index s = Inr (foldl (evaluateOne E) s (evalOrder (skippedFlags s) index))"
  using driver_as_fold(1) by blast

lemma forLoop_returns:
  "forLoop E i s = Inr (foldl (evaluateOne E) s (loopOrder (skippedFlags s) i))"
  by (rule driver_as_fold(3))

lemma evaluateLine_length:
  "evaluateLine E index s = Inr b \<Longrightarrow> length (lines b) = length (lines s)"
  using length_partial(1)[of E index s] driver_total by blast

subsection \<open>The \<^verbatim>\<open>try\<close> block\<close>

lemma splitFrom_nonempty: "splitFrom sep acc s \<noteq> []"
  by (induction sep acc s rule: splitFrom.induct) simp_all

lemma splitFrom_two:
  "sep \<noteq> [] \<Longrightarrow> includesStr s sep \<Longrightarrow> \<exists>a b rest. splitFrom sep acc s = a # b # rest"
proof (induction s arbitrary: acc)
  case Nil
  then show ?case by simp
next
  case (Cons c cs)
  show ?case
  proof (cases "prefix sep (c # cs)")
    case True
    obtain b rest where "splitFrom sep [] (drop (length sep) (c # cs)) = b # rest"
      using splitFrom_nonempty[of sep "[]" "drop (length sep) (c # cs)"]
      by (cases "splitFrom sep [] (drop (length sep) (c # cs))") auto
    with True Cons.prems(1) show ?thesis by simp
  next
    case False
    with Cons.prems have "includesStr cs sep" by simp
    from Cons.IH[OF Cons.prems(1) this, of "acc @ [c]"] False show ?thesis by simp
  qed
qed

lemma split_two:
  "sep \<noteq> [] \<Longrightarrow> includesStr s sep \<Longrightarrow> \<exists>a b rest. map trim (split s sep) = a # b # rest"
  using splitFrom_two[of sep s "[]"] by (auto simp: split_def)

lemma str_nonempty: "str ''='' \<noteq> []" "str '' to '' \<noteq> []"
  by (simp_all add: str_def)

text \<open>An assignment to \<open>__proto__\<close> leaves the table of bindings as it is.\<close>

lemma assign_proto:
  "assign vars (str ''__proto__'') v = vars"
  "n \<noteq> str ''__proto__'' \<Longrightarrow> assign vars n v = vars(n \<mapsto> v)"
  by (simp_all add: assign_def)

lemma assignmentParts_Some:
  "includesStr inp (str ''='') \<Longrightarrow> \<exists>varName expression. assignmentParts inp = Some (varName, expression)"
  using split_two[OF str_nonempty(1), of inp] by (auto simp: assignmentParts_def)

lemma conversionParts_Some:
  "includesStr expression (str '' to '') \<Longrightarrow>
     \<exists>fromExpr toUnit. conversionParts expression = Some (fromExpr, toUnit)"
  using split_two[OF str_nonempty(2), of expression] by (auto simp: conversionParts_def)

text \<open>Every input gives the block a text to evaluate.\<close>

lemma lineParts_Some: "\<exists>target expr unit. lineParts inp = Some (target, expr, unit)"
proof (cases "includesStr inp (str ''='')")
  case False
  then show ?thesis by (simp add: lineParts_def)
next
  case True
  then obtain varName expression where a: "assignmentParts inp = Some (varName, expression)"
    using assignmentParts_Some by blast
  show ?thesis
  proof (cases "includesStr expression (str '' to '')")
    case False
    with True a show ?thesis by (simp add: lineParts_def)
  next
    case to: True
    then obtain fromExpr toUnit where "conversionParts expression = Some (fromExpr, toUnit)"
      using conversionParts_Some by blast
    with True a to show ?thesis by (simp add: lineParts_def)
  qed
qed

lemma tryBlock_steps:
  assumes "lineParts inp = Some (target, expr, unit)"
  shows "tryBlock E w inp vars = blockSteps E w target expr unit vars"
proof (cases "includesStr inp (str ''='')")
  case False
  with assms have "target = None" "expr = inp" "unit = None"
    by (simp_all add: lineParts_def)
  with False show ?thesis
    by (simp add: tryBlock_def blockSteps_def split: prod.splits sum.splits)
next
  case True
  then obtain varName expression where a: "assignmentParts inp = Some (varName, expression)"
    using assignmentParts_Some by blast
  show ?thesis
  proof (cases "includesStr expression (str '' to '')")
    case False
    with True a assms have "target = Some varName" "expr = expression" "unit = None"
      by (simp_all add: lineParts_def)
    with True a False show ?thesis
      by (simp add: tryBlock_def blockSteps_def split: prod.splits sum.splits)
  next
    case to: True
    then obtain fromExpr toUnit where c: "conversionParts expression = Some (fromExpr, toUnit)"
      using conversionParts_Some by blast
    with True a to assms have "target = Some varName" "expr = fromExpr" "unit = Some toUnit"
      by (simp_all add: lineParts_def)
    with True a to c show ?thesis
      by (simp add: tryBlock_def blockSteps_def split: prod.splits sum.splits)
  qed
qed

lemma raised_steps:
  "lineParts inp = Some (target, expr, unit) \<Longrightarrow>
     raised E w inp vars =
       (case fst (blockSteps E w target expr unit vars) of
          Inr r \<Rightarrow> None
        | Inl m \<Rightarrow>
            (case evaluate E w expr vars of
               (Inl m', w1) \<Rightarrow> Some (Evaluation, m)
             | (Inr v, w1) \<Rightarrow>
                 (case (case unit of None \<Rightarrow> (Inr v, w1) | Some u \<Rightarrow> to E w1 v u) of
                    (Inl m', w2) \<Rightarrow> Some (Conversion, m)
                  | (Inr c, w2) \<Rightarrow> Some (Formatting, m))))"
  by (cases unit) (simp_all add: raised_def blockSteps_def split: prod.splits sum.splits)

text \<open>The block is left by an error exactly when one of the three calls throws.\<close>

lemma tryBlock_raised:
  "fst (tryBlock E w inp vars) = Inl m \<longleftrightarrow> (\<exists>st. raised E w inp vars = Some (st, m))"
proof -
  obtain target expr unit where p: "lineParts inp = Some (target, expr, unit)"
    using lineParts_Some by blast
  show ?thesis
    unfolding tryBlock_steps[OF p] raised_steps[OF p]
    by (cases unit) (auto simp: blockSteps_def split: prod.splits sum.splits)
qed

lemma tryBlock_not_raised:
  "(\<exists>r. fst (tryBlock E w inp vars) = Inr r) \<longleftrightarrow> raised E w inp vars = None"
proof -
  obtain target expr unit where p: "lineParts inp = Some (target, expr, unit)"
    using lineParts_Some by blast
  show ?thesis
    unfolding tryBlock_steps[OF p] raised_steps[OF p]
    by (cases unit) (auto simp: blockSteps_def split: prod.splits sum.splits)
qed

text \<open>The bindings when the block is left: the value is stored once it is computed.\<close>

lemma tryBlock_bindings:
  "fst (snd (tryBlock E w inp vars)) =
     (case computed E w inp vars of Some (n, v) \<Rightarrow> assign vars n v | None \<Rightarrow> vars)"
proof -
  obtain target expr unit where p: "lineParts inp = Some (target, expr, unit)"
    using lineParts_Some by blast
  show ?thesis
    unfolding tryBlock_steps[OF p]
    by (cases target; cases unit)
      (simp_all add: p computed_def blockSteps_def split: prod.splits sum.splits)
qed

text \<open>A throw of the evaluation or of the conversion comes before the value is there.\<close>

lemma raised_early_computed:
  "raised E w inp vars = Some (st, m) \<Longrightarrow> st \<noteq> Formatting \<Longrightarrow> computed E w inp vars = None"
  by (auto simp: raised_def computed_def split: option.splits prod.splits sum.splits if_splits)

text \<open>A throw of the formatter is a throw on the value that was computed.\<close>

lemma raised_formatting_computed:
  assumes "raised E w inp vars = Some (Formatting, m)" and "computed E w inp vars = Some (n, v)"
  shows "\<exists>w'. fst (format E w' v) = Inl m"
proof -
  obtain target expr unit where p: "lineParts inp = Some (target, expr, unit)"
    using lineParts_Some by blast
  obtain a w1 where e: "evaluate E w expr vars = (a, w1)" by (cases "evaluate E w expr vars")
  from assms(1) p e obtain v0 where a: "a = Inr v0"
    by (cases a) (simp_all add: raised_def)
  show ?thesis
  proof (cases unit)
    case None
    obtain b w2 where f: "format E w1 v0 = (b, w2)" by (cases "format E w1 v0")
    from assms(1) p e a None f have "b = Inl m"
      by (cases b) (simp_all add: raised_def)
    moreover from assms(2) p e a None have "v = v0"
      by (cases target) (simp_all add: computed_def)
    ultimately have "fst (format E w1 v) = Inl m" using f by simp
    then show ?thesis ..
  next
    case (Some u)
    obtain c w2 where t: "to E w1 v0 u = (c, w2)" by (cases "to E w1 v0 u")
    from assms(1) p e a Some t obtain c0 where c: "c = Inr c0"
      by (cases c) (simp_all add: raised_def)
    obtain b w3 where f: "format E w2 c0 = (b, w3)" by (cases "format E w2 c0")
    from assms(1) p e a Some t c f have "b = Inl m"
      by (cases b) (simp_all add: raised_def)
    moreover from assms(2) p e a Some t c have "v = c0"
      by (cases target) (simp_all add: computed_def)
    ultimately have "fst (format E w2 v) = Inl m" using f by simp
    then show ?thesis ..
  qed
qed

lemma hasError_settle: "hasError (settle l outcome) = (\<exists>m. outcome = Inl m)"
  by (cases outcome) (simp_all add: settle_def)

lemma settle_error:
  "settle l (Inl m) = l\<lparr>result := str ''Error'', hasError := True, errorMessage := errorText m\<rparr>"
  by (simp add: settle_def)

lemma evaluateLine_cascade:
  assumes "index < length (lines s)" "\<not> isSkipped (lines s ! index)"
  shows "evaluateLine E index s =
           Inr (foldl (evaluateOne E) (runTry E index s) (loopOrder (skippedFlags s) (index + 1)))"
  using assms
  by (simp add: evaluateLine_returns evalOrder_cascade skippedFlags_def evaluateOne_def)

lemma own_line_after_cascade:
  "lines (foldl (evaluateOne E) t (loopOrder fl (index + 1))) ! index = lines t ! index"
  by (rule other_foldl) (simp add: set_loopOrder)

subsection \<open>Operations of the user interface\<close>






subsection \<open>The pass over all lines\<close>



subsection \<open>Splitting at one character\<close>

lemma splitFrom_char_absent:
  "c \<notin> set s \<Longrightarrow> splitFrom [c] acc s = [acc @ s]"
  by (induction s arbitrary: acc) auto

lemma splitFrom_char_first:
  "c \<in> set s \<Longrightarrow>
   splitFrom [c] acc s =
     (acc @ takeWhile (\<lambda>x. x \<noteq> c) s) # splitFrom [c] [] (drop 1 (dropWhile (\<lambda>x. x \<noteq> c) s))"
proof (induction s arbitrary: acc)
  case Nil
  then show ?case by simp
next
  case (Cons x xs)
  show ?case
  proof (cases "x = c")
    case True
    then show ?thesis by simp
  next
    case False
    with Cons.prems have "c \<in> set xs" by simp
    from Cons.IH[OF this, of "acc @ [x]"] False show ?thesis by simp
  qed
qed

text \<open>With a single \<open>=\<close> in the input, line 130 takes what the specification says.\<close>

lemma str_equalsSign: "str ''='' = [equalsSign]"
  by (simp add: str_def equalsSign_def)

lemma assignmentParts_single:
  assumes "equalsSign \<in> set s"
    and "equalsSign \<notin> set (drop 1 (dropWhile (\<lambda>c. c \<noteq> equalsSign) s))"
  shows "assignmentParts s = Some (splitOnce_spec s)"
  using assms
  by (simp add: assignmentParts_def split_def splitOnce_spec_def str_equalsSign
      splitFrom_char_first[of equalsSign s "[]"] splitFrom_char_absent)

subsection \<open>Currency registration\<close>






subsection \<open>A second pass over all lines\<close>






























section \<open>The claims\<close>

text \<open>
  C7. For every line whose trimmed input is empty or begins with the comment marker
  \<open>//\<close>, \<open>evaluateLine\<close> returns normally, clears the result, the error flag and the
  error message of that line, and writes no binding, whatever follows the marker: the
  binding table, the input and every other line are as before. The trimming is that of
  \<^verbatim>\<open>String.prototype.trim\<close>, which also removes the no-break space.
\<close>

theorem skipped_line_cleared:
  assumes "index < length (lines s)"
    and "trim (input (lines s ! index)) = [] \<or>
         startsWith (trim (input (lines s ! index))) (str ''//'')"
  shows "\<exists>s'. evaluateLine E index s = Inr s' \<and>
           result (lines s' ! index) = [] \<and> \<not> hasError (lines s' ! index) \<and>
           errorMessage (lines s' ! index) = [] \<and>
           input (lines s' ! index) = input (lines s ! index) \<and>
           variables s' = variables s \<and>
           length (lines s') = length (lines s) \<and>
           (\<forall>k. k \<noteq> index \<longrightarrow> lines s' ! k = lines s ! k)"
proof -
  from assms(2) have sk: "isSkipped (lines s ! index)" by (simp add: isSkipped_def)
  with assms(1) have
    "evaluateLine E index s = Inr (s\<lparr>lines := (lines s)[index := clearLine (lines s ! index)]\<rparr>)"
    by (simp add: evaluateLine.simps)
  with assms(1) show ?thesis by (simp add: clearLine_def)
qed

theorem skipped_line_cleared_witness:
  "(0::nat) < length (lines (mkState () [CHR 0xA0 # '' // a = 5'', ''1''])) \<and>
   startsWith (trim (input (lines (mkState () [CHR 0xA0 # '' // a = 5'', ''1'']) ! 0))) (str ''//'') \<and>
   (\<exists>s'. evaluateLine stubEngine 0 (mkState () [CHR 0xA0 # '' // a = 5'', ''1'']) = Inr s' \<and>
      result (lines s' ! 0) = [] \<and> \<not> hasError (lines s' ! 0) \<and> variables s' = Map.empty)"
proof -
  have a: "(0::nat) < length (lines (mkState () [CHR 0xA0 # '' // a = 5'', ''1'']))"
    by (simp add: mkState_def)
  have b: "startsWith (trim (input (lines (mkState () [CHR 0xA0 # '' // a = 5'', ''1'']) ! 0)))
             (str ''//'')"
    by (simp add: mkState_def mkLine_def) code_simp
  from skipped_line_cleared[OF a disjI2[OF b], of stubEngine] a b
  show ?thesis by (auto simp: mkState_def)
qed

text \<open>
  C10. For every list of lines and every index, the mutually recursive pair
  \<open>evaluateLine\<close> and \<open>updateAllLinesAfter\<close> (with the loop of the latter) terminates:
  every argument is in the domain of the recursion, both functions return a state with
  the same number of lines, the body of \<open>evaluateLine\<close> runs only on indices from the
  given one to the end of the list and at most \<open>2 ^ (n - 1 - index)\<close> times on \<open>n\<close>
  lines, and each of the four recursive calls is made at an argument of smaller
  measure, the measure being the number of lines from the index to the end.
\<close>

theorem driver_terminates:
  "evaluateLine_updateAllLinesAfter_forLoop_dom (Inl (E, index, s)) \<and>
   evaluateLine_updateAllLinesAfter_forLoop_dom (Inr (Inl (E, index, s))) \<and>
   evaluateLine_updateAllLinesAfter_forLoop_dom (Inr (Inr (E, index, s))) \<and>
   (\<exists>s'. updateAllLinesAfter E index s = Inr s' \<and> length (lines s') = length (lines s)) \<and>
   (index < length (lines s) \<longrightarrow>
      (\<exists>s'. evaluateLine E index s = Inr s' \<and> length (lines s') = length (lines s))) \<and>
   (index < length (lines s) \<longrightarrow>
      (\<exists>tr. evaluateLine E index s = Inr (foldl (evaluateOne E) s tr) \<and>
         set tr \<subseteq> {index ..< length (lines s)} \<and>
         length tr \<le> 2 ^ (length (lines s) - Suc index))) \<and>
   (index < length (lines s) \<and> \<not> isSkipped (lines s ! index) \<longrightarrow>
      driverMeasure (Inr (Inl (E, index, runTry E index s))) < driverMeasure (Inl (E, index, s))) \<and>
   driverMeasure (Inr (Inr (E, index + 1, s))) < driverMeasure (Inr (Inl (E, index, s))) \<and>
   (index < length (lines s) \<longrightarrow>
      driverMeasure (Inl (E, index, s)) < driverMeasure (Inr (Inr (E, index, s)))) \<and>
   (\<forall>b. index < length (lines s) \<and> evaluateLine E index s = Inr b \<longrightarrow>
      driverMeasure (Inr (Inr (E, index + 1, b))) < driverMeasure (Inr (Inr (E, index, s))))"
proof (intro conjI allI impI)
  show "evaluateLine_updateAllLinesAfter_forLoop_dom (Inl (E, index, s))"
    using driver_total by blast
  show "evaluateLine_updateAllLinesAfter_forLoop_dom (Inr (Inl (E, index, s)))"
    using driver_total by blast
  show "evaluateLine_updateAllLinesAfter_forLoop_dom (Inr (Inr (E, index, s)))"
    using driver_total by blast
  show "\<exists>s'. updateAllLinesAfter E index s = Inr s' \<and> length (lines s') = length (lines s)"
    by (simp add: driver_as_fold(2) length_foldl)
  show "\<exists>s'. evaluateLine E index s = Inr s' \<and> length (lines s') = length (lines s)"
    if "index < length (lines s)"
    using that by (simp add: evaluateLine_returns length_foldl)
  show "\<exists>tr. evaluateLine E index s = Inr (foldl (evaluateOne E) s tr) \<and>
         set tr \<subseteq> {index ..< length (lines s)} \<and>
         length tr \<le> 2 ^ (length (lines s) - Suc index)"
    if "index < length (lines s)"
  proof (intro exI conjI)
    show "evaluateLine E index s = Inr (foldl (evaluateOne E) s (evalOrder (skippedFlags s) index))"
      using that by (rule evaluateLine_returns)
    show "set (evalOrder (skippedFlags s) index) \<subseteq> {index ..< length (lines s)}"
      using evalOrder_range[of "skippedFlags s" index] by (simp add: length_flags)
    show "length (evalOrder (skippedFlags s) index) \<le> 2 ^ (length (lines s) - Suc index)"
      using that length_evalOrder[of index "skippedFlags s"] by (simp add: length_flags)
  qed
  show "driverMeasure (Inr (Inl (E, index, runTry E index s))) < driverMeasure (Inl (E, index, s))"
    if "index < length (lines s) \<and> \<not> isSkipped (lines s ! index)"
    using that by (auto simp: driverMeasure_def length_runTry)
  show "driverMeasure (Inr (Inr (E, index + 1, s))) < driverMeasure (Inr (Inl (E, index, s)))"
    by (simp add: driverMeasure_def)
  show "driverMeasure (Inl (E, index, s)) < driverMeasure (Inr (Inr (E, index, s)))"
    if "index < length (lines s)"
    using that by (simp add: driverMeasure_def)
  show "driverMeasure (Inr (Inr (E, index + 1, b))) < driverMeasure (Inr (Inr (E, index, s)))"
    if "index < length (lines s) \<and> evaluateLine E index s = Inr b" for b
    using that evaluateLine_length[of E index s b] by (auto simp: driverMeasure_def)
qed

theorem driver_terminates_witness:
  "(0::nat) < length (lines (mkState () [''a = 1'', ''b = a''])) \<and>
   \<not> isSkipped (lines (mkState () [''a = 1'', ''b = a'']) ! 0) \<and>
   (\<exists>b. evaluateLine stubEngine 0 (mkState () [''a = 1'', ''b = a'']) = Inr b \<and>
        length (lines b) = 2 \<and>
        driverMeasure (Inr (Inr (stubEngine, 0 + 1, b)))
          < driverMeasure (Inr (Inr (stubEngine, 0, mkState () [''a = 1'', ''b = a''])))) \<and>
   driverMeasure
       (Inr (Inl (stubEngine, 0, runTry stubEngine 0 (mkState () [''a = 1'', ''b = a'']))))
     < driverMeasure (Inl (stubEngine, 0, mkState () [''a = 1'', ''b = a'']))"
proof -
  let ?S = "mkState () [''a = 1'', ''b = a'']"
  have a: "(0::nat) < length (lines ?S)" by (simp add: mkState_def)
  have "\<not> isSkipped (mkLine (str ''a = 1''))" by code_simp
  then have n: "\<not> isSkipped (lines ?S ! 0)" by (simp add: mkState_def)
  note t = driver_terminates[of stubEngine 0 ?S]
  from t a obtain b where b: "evaluateLine stubEngine 0 ?S = Inr b" "length (lines b) = length (lines ?S)"
    by blast
  from t a b(1) have "driverMeasure (Inr (Inr (stubEngine, 0 + 1, b)))
          < driverMeasure (Inr (Inr (stubEngine, 0, ?S)))" by blast
  moreover from t a n have "driverMeasure (Inr (Inl (stubEngine, 0, runTry stubEngine 0 ?S)))
     < driverMeasure (Inl (stubEngine, 0, ?S))" by blast
  moreover from b(2) have "length (lines b) = 2" by (simp add: mkState_def)
  ultimately show ?thesis using a n b(1) by blast
qed

text \<open>
  C1, as it holds. For every list of lines and every index inside it, \<open>evaluateLine\<close>
  evaluates the line at the index first. When that line is blank or a comment nothing
  else is evaluated. Otherwise the lines that are evaluated afterwards are exactly the
  lines at greater positions, each of them at least once, so that a binding written
  at the index is visible to every later line.
\<close>

theorem cascade_reaches_later_lines:
  assumes "index < length (lines s)"
  shows "\<exists>rest. evaluateLine E index s = Inr (foldl (evaluateOne E) (evaluateOne E s index) rest) \<and>
           set rest = (if isSkipped (lines s ! index) then {} else {index + 1 ..< length (lines s)})"
proof (cases "isSkipped (lines s ! index)")
  case True
  with assms have "evalOrder (skippedFlags s) index = [index]"
    by (simp add: evalOrder_skipped skippedFlags_def)
  with assms True show ?thesis
    by (simp add: evaluateLine_returns)
next
  case False
  with assms have "evalOrder (skippedFlags s) index = index # loopOrder (skippedFlags s) (index + 1)"
    by (simp add: evalOrder_cascade skippedFlags_def)
  with assms have "evaluateLine E index s =
      Inr (foldl (evaluateOne E) (evaluateOne E s index) (loopOrder (skippedFlags s) (index + 1)))"
    by (simp add: evaluateLine_returns)
  moreover have "set (loopOrder (skippedFlags s) (index + 1)) = {index + 1 ..< length (lines s)}"
    by (simp add: set_loopOrder length_flags)
  ultimately show ?thesis using False by auto
qed

theorem cascade_reaches_later_lines_witness:
  "(0::nat) < length (lines (mkState () [''a = 1'', ''b = a''])) \<and>
   (\<exists>rest. evaluateLine stubEngine 0 (mkState () [''a = 1'', ''b = a'']) =
        Inr (foldl (evaluateOne stubEngine)
               (evaluateOne stubEngine (mkState () [''a = 1'', ''b = a'']) 0) rest) \<and>
      set rest = {1}) \<and>
   (0::nat) < length (lines (mkState () [CHR 0xA0 # ''// note'', ''7''])) \<and>
   (\<exists>rest. evaluateLine stubEngine 0 (mkState () [CHR 0xA0 # ''// note'', ''7'']) =
        Inr (foldl (evaluateOne stubEngine)
               (evaluateOne stubEngine (mkState () [CHR 0xA0 # ''// note'', ''7'']) 0) rest) \<and>
      set rest = {})"
proof -
  let ?S = "mkState () [''a = 1'', ''b = a'']"
  let ?T = "mkState () [CHR 0xA0 # ''// note'', ''7'']"
  have a: "(0::nat) < length (lines ?S)" by (simp add: mkState_def)
  have "\<not> isSkipped (mkLine (str ''a = 1''))" by code_simp
  then have n: "\<not> isSkipped (lines ?S ! 0)" by (simp add: mkState_def)
  have l: "{0 + 1 ..< length (lines ?S)} = {1}" by (auto simp: mkState_def)
  have b: "(0::nat) < length (lines ?T)" by (simp add: mkState_def)
  have "isSkipped (mkLine (str (CHR 0xA0 # ''// note'')))" by code_simp
  then have k: "isSkipped (lines ?T ! 0)" by (simp add: mkState_def)
  from cascade_reaches_later_lines[OF a, of stubEngine] n l a
  have 1: "\<exists>rest. evaluateLine stubEngine 0 ?S =
        Inr (foldl (evaluateOne stubEngine) (evaluateOne stubEngine ?S 0) rest) \<and> set rest = {1}"
    by simp
  from cascade_reaches_later_lines[OF b, of stubEngine] k
  have 2: "\<exists>rest. evaluateLine stubEngine 0 ?T =
        Inr (foldl (evaluateOne stubEngine) (evaluateOne stubEngine ?T 0) rest) \<and> set rest = {}"
    by simp
  from a b 1 2 show ?thesis by blast
qed

text \<open>
  The call is not the single pass over the lines from the index on. With four
  assignments the third line is evaluated again after the fourth and ends without an
  error, where the single pass leaves an error; and a blank first line stops the call
  before the second line is evaluated.
\<close>

theorem cascade_once_counterexample:
  "evaluateLine stubEngine 0 (mkState () [''a = 1'', ''x = 1'', ''b = c'', ''c = a''])
     \<noteq> Inr (singlePass stubEngine 0 (mkState () [''a = 1'', ''x = 1'', ''b = c'', ''c = a''])) \<and>
   shown (evaluateLine stubEngine 0 (mkState () [''a = 1'', ''x = 1'', ''b = c'', ''c = a'']))
     = [(str ''1'', False), (str ''1'', False), (str ''1'', False), (str ''1'', False)] \<and>
   shown (Inr (singlePass stubEngine 0 (mkState () [''a = 1'', ''x = 1'', ''b = c'', ''c = a''])))
     = [(str ''1'', False), (str ''1'', False), (str ''Error'', True), (str ''1'', False)] \<and>
   evaluateLine stubEngine 0 (mkState () ['''', ''7''])
     \<noteq> Inr (singlePass stubEngine 0 (mkState () ['''', ''7''])) \<and>
   shown (evaluateLine stubEngine 0 (mkState () ['''', ''7''])) = [([], False), ([], False)] \<and>
   shown (Inr (singlePass stubEngine 0 (mkState () ['''', ''7''])))
     = [([], False), (str ''7'', False)]"
proof -
  have a1: "shown (evaluateLine stubEngine 0 (mkState () [''a = 1'', ''x = 1'', ''b = c'', ''c = a'']))
     = [(str ''1'', False), (str ''1'', False), (str ''1'', False), (str ''1'', False)]"
    by code_simp
  have a2: "shown (Inr (singlePass stubEngine 0 (mkState () [''a = 1'', ''x = 1'', ''b = c'', ''c = a''])))
     = [(str ''1'', False), (str ''1'', False), (str ''Error'', True), (str ''1'', False)]"
    by code_simp
  have b1: "shown (evaluateLine stubEngine 0 (mkState () ['''', ''7''])) = [([], False), ([], False)]"
    by code_simp
  have b2: "shown (Inr (singlePass stubEngine 0 (mkState () ['''', ''7''])))
     = [([], False), (str ''7'', False)]"
    by code_simp
  have "evaluateLine stubEngine 0 (mkState () [''a = 1'', ''x = 1'', ''b = c'', ''c = a''])
     \<noteq> Inr (singlePass stubEngine 0 (mkState () [''a = 1'', ''x = 1'', ''b = c'', ''c = a'']))"
  proof
    assume "evaluateLine stubEngine 0 (mkState () [''a = 1'', ''x = 1'', ''b = c'', ''c = a''])
      = Inr (singlePass stubEngine 0 (mkState () [''a = 1'', ''x = 1'', ''b = c'', ''c = a'']))"
    with a1 a2 show False by (simp add: str_def)
  qed
  moreover have "evaluateLine stubEngine 0 (mkState () ['''', ''7''])
     \<noteq> Inr (singlePass stubEngine 0 (mkState () ['''', ''7'']))"
  proof
    assume "evaluateLine stubEngine 0 (mkState () ['''', ''7''])
      = Inr (singlePass stubEngine 0 (mkState () ['''', ''7'']))"
    with b1 b2 show False by (simp add: str_def)
  qed
  ultimately show ?thesis using a1 a2 b1 b2 by blast
qed

text \<open>
  C4, as it holds. For every line that is not blank and not a comment and on which the
  evaluation, the conversion or the formatting throws with message \<open>m\<close>, \<open>evaluateLine\<close>
  returns normally and leaves that line with \<open>hasError\<close> set, the result text \<open>Error\<close>
  and, as its error message, \<open>m\<close> when \<open>m\<close> is not empty and the text \<open>Unknown error\<close>
  when it is; the cascade is not aborted: every later line is evaluated after the
  failed one.
\<close>

theorem error_marks_line:
  assumes "index < length (lines s)"
    and "\<not> isSkipped (lines s ! index)"
    and "raised E (mathState s) (trim (input (lines s ! index))) (variables s) = Some (st, m)"
  shows "\<exists>s' rest. evaluateLine E index s = Inr s' \<and>
           hasError (lines s' ! index) \<and>
           result (lines s' ! index) = str ''Error'' \<and>
           errorMessage (lines s' ! index) = (if m = [] then str ''Unknown error'' else m) \<and>
           s' = foldl (evaluateOne E) (runTry E index s) rest \<and>
           set rest = {index + 1 ..< length (lines s)}"
proof -
  let ?rest = "loopOrder (skippedFlags s) (index + 1)"
  let ?s' = "foldl (evaluateOne E) (runTry E index s) ?rest"
  have r: "evaluateLine E index s = Inr ?s'"
    using assms(1,2) by (rule evaluateLine_cascade)
  from assms(3)
  have out: "fst (tryBlock E (mathState s) (trim (input (lines s ! index))) (variables s)) = Inl m"
    by (simp add: tryBlock_raised)
  have "lines ?s' ! index = lines (runTry E index s) ! index"
    by (rule own_line_after_cascade)
  also have "\<dots> = settle (lines s ! index) (Inl m)"
    using assms(1) out by (simp add: lines_runTry)
  finally have l: "lines ?s' ! index =
      (lines s ! index)\<lparr>result := str ''Error'', hasError := True, errorMessage := errorText m\<rparr>"
    by (simp add: settle_error)
  have st: "set ?rest = {index + 1 ..< length (lines s)}"
    by (simp add: set_loopOrder length_flags)
  have "hasError (lines ?s' ! index) \<and> result (lines ?s' ! index) = str ''Error'' \<and>
      errorMessage (lines ?s' ! index) = (if m = [] then str ''Unknown error'' else m)"
    using l by (simp add: errorText_def)
  with r st show ?thesis by blast
qed

theorem error_marks_line_witness:
  "(0::nat) < length (lines (mkState () [''x = y'', ''7''])) \<and>
   \<not> isSkipped (lines (mkState () [''x = y'', ''7'']) ! 0) \<and>
   raised stubEngine (mathState (mkState () [''x = y'', ''7'']))
       (trim (input (lines (mkState () [''x = y'', ''7'']) ! 0)))
       (variables (mkState () [''x = y'', ''7'']))
     = Some (Evaluation, str ''Undefined symbol y'') \<and>
   (\<exists>s' rest. evaluateLine stubEngine 0 (mkState () [''x = y'', ''7'']) = Inr s' \<and>
      hasError (lines s' ! 0) \<and> result (lines s' ! 0) = str ''Error'' \<and>
      errorMessage (lines s' ! 0) = str ''Undefined symbol y'' \<and>
      s' = foldl (evaluateOne stubEngine) (runTry stubEngine 0 (mkState () [''x = y'', ''7''])) rest \<and>
      set rest = {1}) \<and>
   shown (evaluateLine stubEngine 0 (mkState () [''x = y'', ''7'']))
     = [(str ''Error'', True), (str ''7'', False)] \<and>
   (0::nat) < length (lines (mkState () [''x = 1 to cm'', ''7''])) \<and>
   \<not> isSkipped (lines (mkState () [''x = 1 to cm'', ''7'']) ! 0) \<and>
   raised stubEngine (mathState (mkState () [''x = 1 to cm'', ''7'']))
       (trim (input (lines (mkState () [''x = 1 to cm'', ''7'']) ! 0)))
       (variables (mkState () [''x = 1 to cm'', ''7'']))
     = Some (Conversion, str ''Unit cm not found'') \<and>
   (\<exists>s'. evaluateLine stubEngine 0 (mkState () [''x = 1 to cm'', ''7'']) = Inr s' \<and>
      hasError (lines s' ! 0) \<and> result (lines s' ! 0) = str ''Error'' \<and>
      errorMessage (lines s' ! 0) = str ''Unit cm not found'') \<and>
   shown (evaluateLine stubEngine 0 (mkState () [''x = 1 to cm'', ''7'']))
     = [(str ''Error'', True), (str ''7'', False)] \<and>
   (0::nat) < length (lines (mkState () [''x = 1'', ''7''])) \<and>
   \<not> isSkipped (lines (mkState () [''x = 1'', ''7'']) ! 0) \<and>
   raised noFormatEngine (mathState (mkState () [''x = 1'', ''7'']))
       (trim (input (lines (mkState () [''x = 1'', ''7'']) ! 0)))
       (variables (mkState () [''x = 1'', ''7'']))
     = Some (Formatting, str ''Cannot format'') \<and>
   (\<exists>s'. evaluateLine noFormatEngine 0 (mkState () [''x = 1'', ''7'']) = Inr s' \<and>
      hasError (lines s' ! 0) \<and> result (lines s' ! 0) = str ''Error'' \<and>
      errorMessage (lines s' ! 0) = str ''Cannot format'') \<and>
   shown (evaluateLine noFormatEngine 0 (mkState () [''x = 1'', ''7'']))
     = [(str ''Error'', True), (str ''Error'', True)]"
proof -
  let ?S = "mkState () [''x = y'', ''7'']"
  let ?T = "mkState () [''x = 1 to cm'', ''7'']"
  let ?U = "mkState () [''x = 1'', ''7'']"
  have a: "(0::nat) < length (lines ?S)" by (simp add: mkState_def)
  have "\<not> isSkipped (mkLine (str ''x = y''))" by code_simp
  then have n: "\<not> isSkipped (lines ?S ! 0)" by (simp add: mkState_def)
  have e: "raised stubEngine (mathState ?S) (trim (input (lines ?S ! 0))) (variables ?S)
      = Some (Evaluation, str ''Undefined symbol y'')"
    by code_simp
  have l: "{0 + 1 ..< length (lines ?S)} = {1}" by (auto simp: mkState_def)
  have ne: "str ''Undefined symbol y'' \<noteq> []" by (simp add: str_def)
  have sh: "shown (evaluateLine stubEngine 0 ?S) = [(str ''Error'', True), (str ''7'', False)]"
    by code_simp
  from error_marks_line[OF a n e] l ne
  have 1: "\<exists>s' rest. evaluateLine stubEngine 0 ?S = Inr s' \<and>
      hasError (lines s' ! 0) \<and> result (lines s' ! 0) = str ''Error'' \<and>
      errorMessage (lines s' ! 0) = str ''Undefined symbol y'' \<and>
      s' = foldl (evaluateOne stubEngine) (runTry stubEngine 0 ?S) rest \<and>
      set rest = {1}"
    by simp
  have a2: "(0::nat) < length (lines ?T)" by (simp add: mkState_def)
  have "\<not> isSkipped (mkLine (str ''x = 1 to cm''))" by code_simp
  then have n2: "\<not> isSkipped (lines ?T ! 0)" by (simp add: mkState_def)
  have e2: "raised stubEngine (mathState ?T) (trim (input (lines ?T ! 0))) (variables ?T)
      = Some (Conversion, str ''Unit cm not found'')"
    by code_simp
  have ne2: "str ''Unit cm not found'' \<noteq> []" by (simp add: str_def)
  have sh2: "shown (evaluateLine stubEngine 0 ?T) = [(str ''Error'', True), (str ''7'', False)]"
    by code_simp
  from error_marks_line[OF a2 n2 e2] ne2
  have 2: "\<exists>s'. evaluateLine stubEngine 0 ?T = Inr s' \<and>
      hasError (lines s' ! 0) \<and> result (lines s' ! 0) = str ''Error'' \<and>
      errorMessage (lines s' ! 0) = str ''Unit cm not found''"
    by auto
  have a3: "(0::nat) < length (lines ?U)" by (simp add: mkState_def)
  have "\<not> isSkipped (mkLine (str ''x = 1''))" by code_simp
  then have n3: "\<not> isSkipped (lines ?U ! 0)" by (simp add: mkState_def)
  have e3: "raised noFormatEngine (mathState ?U) (trim (input (lines ?U ! 0))) (variables ?U)
      = Some (Formatting, str ''Cannot format'')"
    by code_simp
  have ne3: "str ''Cannot format'' \<noteq> []" by (simp add: str_def)
  have sh3: "shown (evaluateLine noFormatEngine 0 ?U) = [(str ''Error'', True), (str ''Error'', True)]"
    by code_simp
  from error_marks_line[OF a3 n3 e3] ne3
  have 3: "\<exists>s'. evaluateLine noFormatEngine 0 ?U = Inr s' \<and>
      hasError (lines s' ! 0) \<and> result (lines s' ! 0) = str ''Error'' \<and>
      errorMessage (lines s' ! 0) = str ''Cannot format''"
    by auto
  from a n e 1 sh a2 n2 e2 2 sh2 a3 n3 e3 3 sh3 show ?thesis by blast
qed

text \<open>
  The error message is not always the one that the engine supplies: line 156 puts
  \<open>Unknown error\<close> in the place of an empty message.
\<close>

theorem empty_message_counterexample:
  "raised silentEngine () (trim (str ''x = y'')) Map.empty = Some (Evaluation, []) \<and>
   map errorMessage (case evaluateLine silentEngine 0 (mkState () [''x = y'']) of
                       Inl e \<Rightarrow> [] | Inr s' \<Rightarrow> lines s')
     = [str ''Unknown error''] \<and>
   str ''Unknown error'' \<noteq> []"
proof (intro conjI)
  show "raised silentEngine () (trim (str ''x = y'')) Map.empty = Some (Evaluation, [])"
    by code_simp
  show "map errorMessage (case evaluateLine silentEngine 0 (mkState () [''x = y'']) of
                       Inl e \<Rightarrow> [] | Inr s' \<Rightarrow> lines s')
     = [str ''Unknown error'']"
    by code_simp
  show "str ''Unknown error'' \<noteq> []" by (simp add: str_def)
qed

text \<open>
  C5, as it holds. For every line whose evaluation ends in the error state, one of the
  three calls has thrown. When the evaluation or the conversion has thrown, the
  binding table is unchanged by that line: the state right after the line's own
  evaluation has the bindings of the state before. The table differs only when the
  formatter has thrown, and then exactly in the name of the line, which is bound to
  the value that was computed and that the formatter rejected.
\<close>

theorem failed_line_keeps_bindings:
  assumes "index < length (lines s)"
    and "evaluateLine E index s = Inr s'"
    and "hasError (lines s' ! index)"
  shows "\<exists>rest st m. s' = foldl (evaluateOne E) (evaluateOne E s index) rest \<and>
           index \<notin> set rest \<and>
           raised E (mathState s) (trim (input (lines s ! index))) (variables s) = Some (st, m) \<and>
           errorMessage (lines s' ! index) = errorText m \<and>
           (st \<noteq> Formatting \<longrightarrow> variables (evaluateOne E s index) = variables s) \<and>
           (variables (evaluateOne E s index) \<noteq> variables s \<longrightarrow>
              st = Formatting \<and>
              (\<exists>name v w'.
                 computed E (mathState s) (trim (input (lines s ! index))) (variables s)
                   = Some (name, v) \<and>
                 variables (evaluateOne E s index) = (variables s)(name \<mapsto> v) \<and>
                 fst (format E w' v) = Inl m))"
proof (cases "isSkipped (lines s ! index)")
  case True
  with assms(1,2) have "s' = s\<lparr>lines := (lines s)[index := clearLine (lines s ! index)]\<rparr>"
    by (simp add: evaluateLine.simps)
  with assms(1,3) show ?thesis by (simp add: clearLine_def)
next
  case False
  let ?rest = "loopOrder (skippedFlags s) (index + 1)"
  let ?inp = "trim (input (lines s ! index))"
  let ?out = "fst (tryBlock E (mathState s) ?inp (variables s))"
  let ?vars' = "variables (evaluateOne E s index)"
  from assms(1,2) False have s': "s' = foldl (evaluateOne E) (runTry E index s) ?rest"
    by (simp add: evaluateLine_cascade)
  have one: "evaluateOne E s index = runTry E index s"
    using False by (simp add: evaluateOne_def)
  have "lines s' ! index = lines (runTry E index s) ! index"
    unfolding s' by (rule own_line_after_cascade)
  then have own: "lines s' ! index = settle (lines s ! index) ?out"
    using assms(1) by (simp add: lines_runTry)
  with assms(3) obtain m where m: "?out = Inl m"
    by (auto simp: hasError_settle)
  then obtain st where st: "raised E (mathState s) ?inp (variables s) = Some (st, m)"
    by (auto simp: tryBlock_raised)
  have msg: "errorMessage (lines s' ! index) = errorText m"
    by (simp add: own m settle_error)
  have vars': "?vars' =
      (case computed E (mathState s) ?inp (variables s) of
         Some (n, v) \<Rightarrow> assign (variables s) n v | None \<Rightarrow> variables s)"
    by (simp add: one variables_runTry tryBlock_bindings)
  have early: "?vars' = variables s" if "st \<noteq> Formatting"
    using raised_early_computed[OF st that] vars' by simp
  have late: "st = Formatting \<and>
      (\<exists>name v w'. computed E (mathState s) ?inp (variables s) = Some (name, v) \<and>
         ?vars' = (variables s)(name \<mapsto> v) \<and> fst (format E w' v) = Inl m)"
    if d: "?vars' \<noteq> variables s"
  proof -
    from d early have f: "st = Formatting" by blast
    from d vars' obtain name v where
      c: "computed E (mathState s) ?inp (variables s) = Some (name, v)"
      by (cases "computed E (mathState s) ?inp (variables s)") auto
    with vars' have a: "?vars' = assign (variables s) name v" by simp
    with d have "?vars' = (variables s)(name \<mapsto> v)"
      by (auto simp: assign_def split: if_splits)
    moreover from st f have "raised E (mathState s) ?inp (variables s) = Some (Formatting, m)"
      by simp
    from raised_formatting_computed[OF this c] obtain w' where "fst (format E w' v) = Inl m" ..
    ultimately show ?thesis using f c by blast
  qed
  have nr: "index \<notin> set ?rest" by (simp add: set_loopOrder)
  from s' one have s'': "s' = foldl (evaluateOne E) (evaluateOne E s index) ?rest" by simp
  show ?thesis
  proof (intro exI conjI)
    show "s' = foldl (evaluateOne E) (evaluateOne E s index) ?rest" by (rule s'')
    show "index \<notin> set ?rest" by (rule nr)
    show "raised E (mathState s) ?inp (variables s) = Some (st, m)" by (rule st)
    show "errorMessage (lines s' ! index) = errorText m" by (rule msg)
    show "st \<noteq> Formatting \<longrightarrow> ?vars' = variables s" using early by blast
    show "?vars' \<noteq> variables s \<longrightarrow>
        st = Formatting \<and>
        (\<exists>name v w'. computed E (mathState s) ?inp (variables s) = Some (name, v) \<and>
           ?vars' = (variables s)(name \<mapsto> v) \<and> fst (format E w' v) = Inl m)"
      using late by blast
  qed
qed

theorem failed_line_keeps_bindings_witness:
  "(0::nat) < length (lines (mkState () [''x = y'', ''7''])) \<and>
   (\<exists>s'. evaluateLine stubEngine 0 (mkState () [''x = y'', ''7'']) = Inr s' \<and>
      hasError (lines s' ! 0) \<and>
      variables (evaluateOne stubEngine (mkState () [''x = y'', ''7'']) 0)
        = variables (mkState () [''x = y'', ''7''])) \<and>
   (0::nat) < length (lines (mkState () [''x = 1''])) \<and>
   (\<exists>s'. evaluateLine noFormatEngine 0 (mkState () [''x = 1'']) = Inr s' \<and>
      hasError (lines s' ! 0) \<and>
      variables (evaluateOne noFormatEngine (mkState () [''x = 1'']) 0)
        \<noteq> variables (mkState () [''x = 1'']) \<and>
      (\<exists>name v (w'::unit). variables (evaluateOne noFormatEngine (mkState () [''x = 1'']) 0)
                      = (variables (mkState () [''x = 1'']))(name \<mapsto> v) \<and>
                   fst (format noFormatEngine w' v) = Inl (str ''Cannot format'')))"
proof -
  let ?S = "mkState () [''x = y'', ''7'']"
  let ?U = "mkState () [''x = 1'']"
  have a: "(0::nat) < length (lines ?S)" by (simp add: mkState_def)
  obtain s' where r: "evaluateLine stubEngine 0 ?S = Inr s'"
    using evaluateLine_returns[OF a] by blast
  have "shown (evaluateLine stubEngine 0 ?S) = [(str ''Error'', True), (str ''7'', False)]"
    by code_simp
  with r have h: "hasError (lines s' ! 0)"
    by (cases "lines s'") (auto simp: shown_def)
  have e: "raised stubEngine (mathState ?S) (trim (input (lines ?S ! 0))) (variables ?S)
      = Some (Evaluation, str ''Undefined symbol y'')"
    by code_simp
  from failed_line_keeps_bindings[OF a r h] e
  have "variables (evaluateOne stubEngine ?S 0) = variables ?S" by auto
  with r h have 1: "\<exists>s'. evaluateLine stubEngine 0 ?S = Inr s' \<and> hasError (lines s' ! 0) \<and>
      variables (evaluateOne stubEngine ?S 0) = variables ?S"
    by blast
  have b: "(0::nat) < length (lines ?U)" by (simp add: mkState_def)
  obtain u' where r2: "evaluateLine noFormatEngine 0 ?U = Inr u'"
    using evaluateLine_returns[OF b] by blast
  have "shown (evaluateLine noFormatEngine 0 ?U) = [(str ''Error'', True)]"
    by code_simp
  with r2 have h2: "hasError (lines u' ! 0)"
    by (cases "lines u'") (auto simp: shown_def)
  have "variables (evaluateOne noFormatEngine ?U 0) (str ''x'') = Some (str ''1'')"
    by code_simp
  moreover have "variables ?U (str ''x'') = None" by (simp add: mkState_def)
  ultimately have d: "variables (evaluateOne noFormatEngine ?U 0) \<noteq> variables ?U"
    by (metis option.distinct(1))
  have e2: "raised noFormatEngine (mathState ?U) (trim (input (lines ?U ! 0))) (variables ?U)
      = Some (Formatting, str ''Cannot format'')"
    by code_simp
  from failed_line_keeps_bindings[OF b r2 h2] obtain st m where
    k: "raised noFormatEngine (mathState ?U) (trim (input (lines ?U ! 0))) (variables ?U) = Some (st, m)"
      "variables (evaluateOne noFormatEngine ?U 0) \<noteq> variables ?U \<longrightarrow>
         st = Formatting \<and>
         (\<exists>name v (w'::unit).
            computed noFormatEngine (mathState ?U) (trim (input (lines ?U ! 0))) (variables ?U)
              = Some (name, v) \<and>
            variables (evaluateOne noFormatEngine ?U 0) = (variables ?U)(name \<mapsto> v) \<and>
            fst (format noFormatEngine w' v) = Inl m)"
    by (elim exE conjE) (rule that)
  from k(1) e2 have "m = str ''Cannot format''" by simp
  with k(2) d
  have "\<exists>name v (w'::unit). variables (evaluateOne noFormatEngine ?U 0) = (variables ?U)(name \<mapsto> v) \<and>
      fst (format noFormatEngine w' v) = Inl (str ''Cannot format'')"
    by blast
  with r2 h2 d have 2: "\<exists>s'. evaluateLine noFormatEngine 0 ?U = Inr s' \<and> hasError (lines s' ! 0) \<and>
      variables (evaluateOne noFormatEngine ?U 0) \<noteq> variables ?U \<and>
      (\<exists>name v (w'::unit). variables (evaluateOne noFormatEngine ?U 0) = (variables ?U)(name \<mapsto> v) \<and>
         fst (format noFormatEngine w' v) = Inl (str ''Cannot format''))"
    by blast
  from a 1 b 2 show ?thesis by blast
qed

text \<open>
  The binding is stored before the value is formatted: when the formatter throws, the
  line ends in the error state and the binding has been written.
\<close>

theorem format_failure_counterexample:
  "shown (evaluateLine noFormatEngine 0 (mkState () [''x = 1''])) = [(str ''Error'', True)] \<and>
   variables (case evaluateLine noFormatEngine 0 (mkState () [''x = 1'']) of
                Inl e \<Rightarrow> mkState () [] | Inr s' \<Rightarrow> s') (str ''x'') = Some (str ''1'') \<and>
   variables (mkState () [''x = 1'']) (str ''x'') = None"
proof (intro conjI)
  show "shown (evaluateLine noFormatEngine 0 (mkState () [''x = 1''])) = [(str ''Error'', True)]"
    by code_simp
  show "variables (case evaluateLine noFormatEngine 0 (mkState () [''x = 1'']) of
                Inl e \<Rightarrow> mkState () [] | Inr s' \<Rightarrow> s') (str ''x'') = Some (str ''1'')"
    by code_simp
  show "variables (mkState () [''x = 1'']) (str ''x'') = None"
    by (simp add: mkState_def)
qed

text \<open>
  C2, as it holds. When a line is removed (Backspace on an empty line with more than one
  line present), the line is deleted and nothing else happens: no line is evaluated
  again, every remaining line keeps its input, result and error state, and the binding
  table is not reset, so a binding contributed by the deleted line persists until a
  later evaluation overwrites it.
\<close>

theorem backspace_only_removes:
  assumes "index < length (lines s)"
    and "input (lines s ! index) = []"
    and "1 < length (lines s)"
  shows "\<exists>s'. handleBackspace index s = Inr s' \<and>
           length (lines s') = length (lines s) - 1 \<and>
           (\<forall>k. k < index \<longrightarrow> lines s' ! k = lines s ! k) \<and>
           (\<forall>k. index \<le> k \<and> k < length (lines s) - 1 \<longrightarrow> lines s' ! k = lines s ! (k + 1)) \<and>
           variables s' = variables s"
proof -
  let ?s' = "s\<lparr>lines := take index (lines s) @ drop (index + 1) (lines s)\<rparr>"
  from assms have "handleBackspace index s = Inr ?s'"
    by (simp add: handleBackspace_def)
  moreover from assms(1) have "length (lines ?s') = length (lines s) - 1" by simp
  moreover have "lines ?s' ! k = lines s ! k" if "k < index" for k
    using that assms(1) by (simp add: nth_append)
  moreover have "lines ?s' ! k = lines s ! (k + 1)" if "index \<le> k \<and> k < length (lines s) - 1" for k
    using that assms(1) by (simp add: nth_append min_def)
  moreover have "variables ?s' = variables s" by simp
  ultimately show ?thesis by blast
qed

theorem backspace_only_removes_witness:
  "(0::nat) < length (lines staleState) \<and> input (lines staleState ! 0) = [] \<and>
   1 < length (lines staleState) \<and>
   (\<exists>s'. handleBackspace 0 staleState = Inr s' \<and> length (lines s') = 2 \<and>
      lines s' ! 0 = lines staleState ! 1 \<and> lines s' ! 1 = lines staleState ! 2 \<and>
      variables s' = variables staleState)"
proof -
  have a: "(0::nat) < length (lines staleState)" by (simp add: staleState_def)
  have b: "input (lines staleState ! 0) = []" by (simp add: staleState_def)
  have c: "1 < length (lines staleState)" by (simp add: staleState_def)
  have l: "length (lines staleState) = 3" by (simp add: staleState_def)
  from backspace_only_removes[OF a b c] obtain s' where s':
    "handleBackspace 0 staleState = Inr s'" "length (lines s') = length (lines staleState) - 1"
    "\<forall>k. 0 \<le> k \<and> k < length (lines staleState) - 1 \<longrightarrow> lines s' ! k = lines staleState ! (k + 1)"
    "variables s' = variables staleState"
    by blast
  from s'(3)[rule_format, of 0] s'(3)[rule_format, of 1] l
  have "lines s' ! 0 = lines staleState ! 1" "lines s' ! 1 = lines staleState ! 2"
    by (simp_all add: numeral_2_eq_2)
  with s'(1,2,4) l a b c show ?thesis by auto
qed

text \<open>
  The removal does not evaluate the lines after the deleted index. Typing \<open>y\<close> into the
  second of three blank rows and then \<open>y = 1\<close> into the third leaves the second row
  with an error; after Backspace in the first row the row still shows the error, where
  an evaluation of the lines after the deleted index would show \<open>1\<close>.
\<close>

theorem backspace_reevaluates_counterexample:
  "shown (performAll stubEngine [TypeText 1 (str ''y''), TypeText 2 (str ''y = 1'')]
            (mkState () ['''', '''', '''']))
     = shown (Inr staleState) \<and>
   shown (performAll stubEngine
            [TypeText 1 (str ''y''), TypeText 2 (str ''y = 1''), PressBackspace 0]
            (mkState () ['''', '''', '''']))
     = [(str ''Error'', True), (str ''1'', False)] \<and>
   shown (handleBackspace 0 staleState) = [(str ''Error'', True), (str ''1'', False)] \<and>
   shown (removeLine_spec stubEngine 0 staleState) = [(str ''1'', False), (str ''1'', False)] \<and>
   handleBackspace 0 staleState \<noteq> removeLine_spec stubEngine 0 staleState"
proof -
  have a: "shown (performAll stubEngine [TypeText 1 (str ''y''), TypeText 2 (str ''y = 1'')]
            (mkState () ['''', '''', '''']))
     = shown (Inr staleState)"
    by code_simp
  have b: "shown (performAll stubEngine
            [TypeText 1 (str ''y''), TypeText 2 (str ''y = 1''), PressBackspace 0]
            (mkState () ['''', '''', '''']))
     = [(str ''Error'', True), (str ''1'', False)]"
    by code_simp
  have c: "shown (handleBackspace 0 staleState) = [(str ''Error'', True), (str ''1'', False)]"
    by code_simp
  have d: "shown (removeLine_spec stubEngine 0 staleState) = [(str ''1'', False), (str ''1'', False)]"
    by code_simp
  have "handleBackspace 0 staleState \<noteq> removeLine_spec stubEngine 0 staleState"
  proof
    assume "handleBackspace 0 staleState = removeLine_spec stubEngine 0 staleState"
    with c d show False by (simp add: str_def)
  qed
  with a b c d show ?thesis by blast
qed







text \<open>
  C3 fails on the code. For the input \<open>x = 1 == 2\<close> the specification takes \<open>1 == 2\<close>
  as the expression; line 130 cuts the input at every \<open>=\<close> and keeps the first two
  pieces, so the expression is \<open>1\<close>, the line shows \<open>1\<close> without an error, and \<open>x\<close> is
  bound to \<open>1\<close>.
\<close>

theorem assignment_split_drops_rest:
  "map trim (split (str ''x = 1 == 2'') (str ''='')) = [str ''x'', str ''1'', [], str ''2''] \<and>
   assignmentParts (str ''x = 1 == 2'') = Some (str ''x'', str ''1'') \<and>
   splitOnce_spec (str ''x = 1 == 2'') = (str ''x'', str ''1 == 2'') \<and>
   tryBlock stubEngine () (str ''x = 1 == 2'') Map.empty
     = (Inr (str ''1''), [str ''x'' \<mapsto> str ''1''], ()) \<and>
   shown (evaluateLine stubEngine 0 (mkState () [''x = 1 == 2''])) = [(str ''1'', False)]"
proof (intro conjI)
  show "map trim (split (str ''x = 1 == 2'') (str ''='')) = [str ''x'', str ''1'', [], str ''2'']"
    by code_simp
  show "assignmentParts (str ''x = 1 == 2'') = Some (str ''x'', str ''1'')"
    by code_simp
  show "splitOnce_spec (str ''x = 1 == 2'') = (str ''x'', str ''1 == 2'')"
    by code_simp
  show "tryBlock stubEngine () (str ''x = 1 == 2'') Map.empty
     = (Inr (str ''1''), [str ''x'' \<mapsto> str ''1''], ())"
  proof -
    have a: "assignmentParts (str ''x = 1 == 2'') = Some (str ''x'', str ''1'')"
      by code_simp
    have b: "includesStr (str ''x = 1 == 2'') (str ''='')"
      by code_simp
    have c: "\<not> includesStr (str ''1'') (str '' to '')"
      by code_simp
    have d: "stubEvaluate (str ''1'') Map.empty = Inr (str ''1'')"
      by code_simp
    have e: "str ''x'' \<noteq> str ''__proto__''"
      by (simp add: str_def)
    show ?thesis
      by (simp add: tryBlock_def a b c d e stubEngine_def assign_def)
  qed
  show "shown (evaluateLine stubEngine 0 (mkState () [''x = 1 == 2''])) = [(str ''1'', False)]"
    by code_simp
qed




end
